theory Spec2Isabelle
  imports Main "HOL-Library.AList"
begin

section \<open>JavaScript values and plain objects\<close>

text \<open>
  The values that travel through \<^verbatim>\<open>src/index.js\<close>: connect options, capabilities and
  event payloads. Numbers are restricted to the integers. An object is the list of its own
  enumerable properties in the order they were created.
\<close>

datatype jsval =
    JUndefined
  | JNull
  | JBool bool
  | JNum int
  | JStr string
  | JObj "(string \<times> jsval) list"

type_synonym jsobj = "(string \<times> jsval) list"

datatype error = TypeError

text \<open>ToBoolean, as used by \<^verbatim>\<open>!x\<close> and \<^verbatim>\<open>if (x)\<close>.\<close>

fun truthy :: "jsval \<Rightarrow> bool" where
  "truthy JUndefined = False"
| "truthy JNull = False"
| "truthy (JBool b) = b"
| "truthy (JNum n) = (n \<noteq> 0)"
| "truthy (JStr s) = (s \<noteq> [])"
| "truthy (JObj ps) = True"

text \<open>
  The members every ordinary object inherits from \<^verbatim>\<open>Object.prototype\<close> (ECMAScript,
  including Annex B).
\<close>

definition Object_prototype_keys :: "string list" where
  "Object_prototype_keys =
     [''constructor'', ''hasOwnProperty'', ''isPrototypeOf'', ''propertyIsEnumerable'',
      ''toLocaleString'', ''toString'', ''valueOf'', ''__proto__'',
      ''__defineGetter__'', ''__defineSetter__'', ''__lookupGetter__'', ''__lookupSetter__'']"

text \<open>
  \<^verbatim>\<open>o.k\<close> on a plain object: the own property, else \<^verbatim>\<open>undefined\<close>. The program reads
  only the literal keys \<^verbatim>\<open>power\<close>, \<^verbatim>\<open>code\<close>, \<^verbatim>\<open>detail\<close>, \<^verbatim>\<open>tatus\<close>, \<^verbatim>\<open>reason\<close>,
  \<^verbatim>\<open>name\<close>, \<^verbatim>\<open>text\<close>, \<^verbatim>\<open>capabilities\<close> and \<^verbatim>\<open>types\<close> this way, none of which is a
  member of \<^verbatim>\<open>Object.prototype\<close>.
\<close>

definition js_get :: "jsobj \<Rightarrow> string \<Rightarrow> jsval" where
  "js_get obj k = (case map_of obj k of Some v \<Rightarrow> v | None \<Rightarrow> JUndefined)"

text \<open>
  \<^verbatim>\<open>v.k\<close> on any value: reading a property of \<^verbatim>\<open>undefined\<close> or \<^verbatim>\<open>null\<close> throws, a
  primitive has none of the keys above.
\<close>

fun js_prop :: "jsval \<Rightarrow> string \<Rightarrow> error + jsval" where
  "js_prop JUndefined k = Inl TypeError"
| "js_prop JNull k = Inl TypeError"
| "js_prop (JObj ps) k = Inr (js_get ps k)"
| "js_prop v k = Inr JUndefined"

text \<open>
  Own property keys are enumerated with the array indices first, in ascending numeric
  order, and then the other strings in creation order. An array index is the canonical
  decimal form of an integer below \<open>2^32 - 1\<close>.
\<close>

definition is_digit :: "char \<Rightarrow> bool" where
  "is_digit c \<longleftrightarrow> c \<in> set ''0123456789''"

definition dec_value :: "string \<Rightarrow> int" where
  "dec_value s = foldl (\<lambda>n c. 10 * n + (of_char c - 48)) 0 s"

definition is_array_index :: "string \<Rightarrow> bool" where
  "is_array_index s \<longleftrightarrow>
     s \<noteq> [] \<and> list_all is_digit s \<and> (s = ''0'' \<or> hd s \<noteq> CHR ''0'') \<and>
     dec_value s < 4294967295"

definition Object_entries :: "(string \<times> 'v) list \<Rightarrow> (string \<times> 'v) list" where
  "Object_entries obj =
     sort_key (\<lambda>p. dec_value (fst p)) (filter (\<lambda>p. is_array_index (fst p)) obj) @
     filter (\<lambda>p. \<not> is_array_index (fst p)) obj"

definition Object_keys :: "(string \<times> 'v) list \<Rightarrow> string list" where
  "Object_keys obj = map fst (Object_entries obj)"

text \<open>
  \<^verbatim>\<open>o[k] = v\<close> on an ordinary object that inherits from \<^verbatim>\<open>Object.prototype\<close>. An
  existing own property keeps its place, a new one goes last. The key \<^verbatim>\<open>__proto__\<close> is
  special: unless the object has an own property of that name, the assignment runs the
  inherited setter and creates no own property.
\<close>

definition js_set :: "string \<Rightarrow> 'v \<Rightarrow> (string \<times> 'v) list \<Rightarrow> (string \<times> 'v) list" where
  "js_set k v obj =
     (if k = ''__proto__'' \<and> map_of obj k = None then obj else AList.update k v obj)"

text \<open>
  The prototype after \<^verbatim>\<open>o[k] = v\<close>: the inherited setter takes an object or \<^verbatim>\<open>null\<close>
  and ignores every other value. \<open>None\<close> stands for \<^verbatim>\<open>Object.prototype\<close>.
\<close>

fun is_proto_value :: "jsval \<Rightarrow> bool" where
  "is_proto_value (JObj ps) = True"
| "is_proto_value JNull = True"
| "is_proto_value v = False"

definition js_set_proto :: "string \<Rightarrow> jsval \<Rightarrow> jsobj \<Rightarrow> jsval option \<Rightarrow> jsval option" where
  "js_set_proto k v obj proto =
     (if k = ''__proto__'' \<and> map_of obj k = None \<and> is_proto_value v then Some v else proto)"

text \<open>\<^verbatim>\<open>delete o[k]\<close> removes the own property, if there is one.\<close>

definition js_delete :: "string \<Rightarrow> (string \<times> 'v) list \<Rightarrow> (string \<times> 'v) list" where
  "js_delete k obj = AList.delete k obj"

text \<open>
  \<^verbatim>\<open>Object.assign(target, source)\<close>: the own properties of the source are assigned to the
  target one by one, in the order of \<open>Object_keys\<close>.
\<close>

definition Object_assign :: "(string \<times> 'v) list \<Rightarrow> (string \<times> 'v) list \<Rightarrow> (string \<times> 'v) list" where
  "Object_assign target source =
     fold (\<lambda>p t. js_set (fst p) (snd p) t) (Object_entries source) target"

definition Object_assign_proto :: "jsobj \<Rightarrow> jsobj \<Rightarrow> jsval option" where
  "Object_assign_proto target source =
     snd (fold (\<lambda>p (t, pr). (js_set (fst p) (snd p) t, js_set_proto (fst p) (snd p) t pr))
            (Object_entries source) (target, None))"


text \<open>ToString, as a template literal applies it to an interpolated value.\<close>

definition digit_char :: "nat \<Rightarrow> char" where
  "digit_char d = ''0123456789'' ! d"

function decimal :: "nat \<Rightarrow> string" where
  "decimal n = (if 10 \<le> n then decimal (n div 10) @ [digit_char (n mod 10)] else [digit_char n])"
  by pat_completeness auto
termination
  by (relation "measure id") auto

fun to_string :: "jsval \<Rightarrow> string" where
  "to_string JUndefined = ''undefined''"
| "to_string JNull = ''null''"
| "to_string (JBool b) = (if b then ''true'' else ''false'')"
| "to_string (JNum n) = (if 0 \<le> n then decimal (nat n) else CHR ''-'' # decimal (nat (- n)))"
| "to_string (JStr s) = s"
| "to_string (JObj ps) = ''[object Object]''"

section \<open>The application state\<close>

text \<open>
  Windows and RFB clients are objects with identity: the model numbers them in the order
  of their creation and refers to them by number. One entry of the session store is the
  object literal \<^verbatim>\<open>{win, options, capabilities}\<close> of the \<^verbatim>\<open>vnc:create-session\<close> handler.
\<close>

record session =
  win :: nat
  options :: jsobj
  capabilities :: jsobj

text \<open>
  The arrow functions passed to \<^verbatim>\<open>win.on\<close> and \<^verbatim>\<open>rfb.addEventListener\<close> in the render
  callback of \<^verbatim>\<open>vncWindow\<close>, each with the variables it closes over (the RFB client, the
  URL, the window, the options).
\<close>

datatype win_listener =
    On_focus nat
  | On_blur nat
  | On_keydown nat
  | On_keyup nat
  | On_resize nat
  | On_vnc_cad nat
  | On_vnc_shutdown nat
  | On_vnc_paste nat
  | On_vnc_reboot nat
  | On_vnc_reset nat
  | On_vnc_disconnect nat
  | On_destroy string nat
  | On_render string nat jsobj

datatype rfb_listener =
    On_securityfailure
  | On_bell
  | On_desktopname nat
  | On_clipboard
  | On_disconnect string nat
  | On_connect string nat
  | On_capabilities string nat
  | On_credentialsrequired

text \<open>The state of the connection dialog's form (the hyperapp state).\<close>

record dialog_state =
  state_url :: string
  state_username :: string
  state_password :: string

record window =
  icon :: string
  title :: string
  dimension :: "nat \<times> nat"
  position :: "string option"
  sessionable :: "bool option"
  listeners :: "(string \<times> win_listener) list"
  destroyed :: bool
  dialog :: "dialog_state option"

record rfb =
  rfb_target :: nat
  rfb_url :: string
  rfb_options :: jsobj
  rfb_options_proto :: "jsval option"
  rfb_listeners :: "(string \<times> rfb_listener) list"

text \<open>The \<^verbatim>\<open>onclick\<close> closures of the tray menu.\<close>

datatype click =
    Click_createConnectionWindow
  | Click_win_emit nat string
  | Click_proc_destroy

datatype menu_entry =
  Entry (label: string) (disabled: "bool option") (onclick: "click option")
    (items: "menu_entry list option")

text \<open>
  Calls into the host desktop and into the RFB library, in the order the program makes
  them. What these calls do on their side is not part of this repository.
\<close>

datatype call =
    Make_tray string
  | Tray_destroy
  | Make_contextmenu jsval "menu_entry list"
  | Make_notification string string string
  | Sounds_play string
  | Clipboard_set jsval
  | Console_warn jsval
  | Console_error jsval
  | Proc_createWindow nat
  | Win_close nat
  | New_RFB nat
  | Rfb_sendKey nat int jsval bool
  | Rfb_focus nat
  | Rfb_blur nat
  | Rfb_windowResize nat
  | Rfb_sendCtrlAltDel nat
  | Rfb_machineShutdown nat
  | Rfb_clipboardPasteFrom nat jsval
  | Rfb_machineReboot nat
  | Rfb_machineReset nat
  | Rfb_disconnect nat

text \<open>An event the host has still to deliver from a later turn of its event loop.\<close>

datatype task = Emit_render nat

text \<open>
  \<open>sessions\<close> holds the own properties of the object \<^verbatim>\<open>sessions\<close>, and \<open>sessions_proto\<close>
  says whether its prototype has been replaced by a session record (which only the key
  \<^verbatim>\<open>__proto__\<close> can do). \<open>object_prototype_capabilities\<close> says whether the program has
  written a property \<^verbatim>\<open>capabilities\<close> on \<^verbatim>\<open>Object.prototype\<close> itself.
  \<open>proc_args_sessions\<close> is \<^verbatim>\<open>proc.args.sessions\<close>, \<open>None\<close> when it is undefined.
\<close>

record app =
  sessions :: "(string \<times> session) list"
  sessions_proto :: bool
  object_prototype_capabilities :: bool
  proc_args_sessions :: "(string \<times> jsobj) list option"
  windows :: "window list"
  rfbs :: "rfb list"
  pending :: "task list"
  calls :: "call list"

text \<open>
  What the program takes from its host: the translated title and the logo resource, whether
  a sound service is registered, and two behaviours of the host that this repository does
  not fix: whether \<^verbatim>\<open>Window.render\<close> emits \<^verbatim>\<open>render\<close> before it returns or from a later
  task, and whether \<^verbatim>\<open>proc.args\<close> is the very object \<^verbatim>\<open>args\<close> given to \<^verbatim>\<open>register\<close>.
\<close>

record env =
  mainTitle :: string
  logo :: string
  has_sounds :: bool
  render_sync :: bool
  args_shared :: bool


definition add_call :: "call \<Rightarrow> app \<Rightarrow> app" where
  "add_call c st = st\<lparr>calls := calls st @ [c]\<rparr>"

section \<open>Session bookkeeping (\<^verbatim>\<open>register\<close>, lines 163 to 236)\<close>

text \<open>
  \<^verbatim>\<open>updateApplicationSession\<close>: the \<^verbatim>\<open>reduce\<close> over \<^verbatim>\<open>Object.keys(sessions)\<close> starts from
  the empty object and, for each URL, assigns the result so far onto a fresh object
  \<^verbatim>\<open>{[url]: sessions[url].options}\<close>.
\<close>

definition updateApplicationSession :: "app \<Rightarrow> app" where
  "updateApplicationSession st =
     st\<lparr>proc_args_sessions :=
          Some (fold (\<lambda>p result. Object_assign [(fst p, options (snd p))] result)
                  (Object_entries (sessions st)) [])\<rparr>"

text \<open>
  The handler of \<^verbatim>\<open>vnc:create-session\<close>: \<^verbatim>\<open>sessions[url] = {win, options, capabilities: {}}\<close>
  and then \<^verbatim>\<open>updateApplicationSession()\<close>. For the key \<^verbatim>\<open>__proto__\<close> the assignment makes
  the new record the prototype of \<^verbatim>\<open>sessions\<close> instead of an entry.
\<close>

definition on_vnc_create_session :: "app \<Rightarrow> string \<Rightarrow> nat \<Rightarrow> jsobj \<Rightarrow> app" where
  "on_vnc_create_session st u w opts =
     updateApplicationSession
       (st\<lparr>sessions := js_set u \<lparr>win = w, options = opts, capabilities = []\<rparr> (sessions st),
           sessions_proto :=
             (sessions_proto st \<or> (u = ''__proto__'' \<and> map_of (sessions st) u = None))\<rparr>)"

text \<open>The handler of \<^verbatim>\<open>vnc:destroy-session\<close>: \<^verbatim>\<open>delete sessions[url]\<close>, then the update.\<close>

definition on_vnc_destroy_session :: "app \<Rightarrow> string \<Rightarrow> nat \<Rightarrow> app" where
  "on_vnc_destroy_session st u w =
     updateApplicationSession (st\<lparr>sessions := js_delete u (sessions st)\<rparr>)"

text \<open>
  \<^verbatim>\<open>sessions[url]\<close> as an expression: an own entry, or a member found on the prototype
  chain (of \<^verbatim>\<open>Object.prototype\<close>, or of the session record that has become the prototype),
  or \<^verbatim>\<open>undefined\<close>. Every inherited member is an object.
\<close>

datatype sessions_value = Undefined | Own session | Inherited

definition inherited_keys :: "app \<Rightarrow> string list" where
  "inherited_keys st =
     Object_prototype_keys @
     (if sessions_proto st then [''win'', ''options'', ''capabilities''] else []) @
     (if object_prototype_capabilities st then [''capabilities''] else [])"

definition sessions_get :: "app \<Rightarrow> string \<Rightarrow> sessions_value" where
  "sessions_get st u =
     (case map_of (sessions st) u of
        Some s \<Rightarrow> Own s
      | None \<Rightarrow> if u \<in> set (inherited_keys st) then Inherited else Undefined)"

text \<open>
  The handler of \<^verbatim>\<open>vnc:update-session\<close>: \<^verbatim>\<open>sessions[url].capabilities = capabilities\<close>.
  On \<^verbatim>\<open>undefined\<close> the assignment throws. On an inherited member it succeeds and writes
  the property on that member, which is \<^verbatim>\<open>Object.prototype\<close> itself when the key is
  \<^verbatim>\<open>__proto__\<close> and the prototype of \<^verbatim>\<open>sessions\<close> has not been replaced.
\<close>

definition on_vnc_update_session :: "app \<Rightarrow> string \<Rightarrow> nat \<Rightarrow> jsobj \<Rightarrow> error + app" where
  "on_vnc_update_session st u w caps =
     (case sessions_get st u of
        Undefined \<Rightarrow> Inl TypeError
      | Own s \<Rightarrow> Inr (st\<lparr>sessions := AList.update u (s\<lparr>capabilities := caps\<rparr>) (sessions st)\<rparr>)
      | Inherited \<Rightarrow>
          Inr (st\<lparr>object_prototype_capabilities :=
                    (object_prototype_capabilities st \<or>
                     (u = ''__proto__'' \<and> \<not> sessions_proto st))\<rparr>))"

text \<open>The handler of the application's own \<^verbatim>\<open>destroy\<close>: \<^verbatim>\<open>tray.destroy()\<close>.\<close>

definition on_destroy :: "app \<Rightarrow> app" where
  "on_destroy st = add_call Tray_destroy st"

text \<open>\<^verbatim>\<open>proc.emit\<close>, for the four events that \<^verbatim>\<open>register\<close> listens to with \<^verbatim>\<open>proc.on\<close>.\<close>

datatype proc_event =
    Vnc_create_session string nat jsobj
  | Vnc_destroy_session string nat
  | Vnc_update_session string nat jsobj
  | Destroy

fun proc_emit :: "app \<Rightarrow> proc_event \<Rightarrow> error + app" where
  "proc_emit st (Vnc_create_session u w opts) = Inr (on_vnc_create_session st u w opts)"
| "proc_emit st (Vnc_destroy_session u w) = Inr (on_vnc_destroy_session st u w)"
| "proc_emit st (Vnc_update_session u w caps) = on_vnc_update_session st u w caps"
| "proc_emit st Destroy = Inr (on_destroy st)"

section \<open>The tray menu (lines 174 to 220)\<close>

definition power_item :: "string \<Rightarrow> session \<Rightarrow> string \<Rightarrow> menu_entry" where
  "power_item l s ev =
     Entry l (Some (\<not> truthy (js_get (capabilities s) ''power'')))
       (Some (Click_win_emit (win s) ev)) None"

text \<open>The function mapped over \<^verbatim>\<open>Object.keys(sessions)\<close>, on a URL and its entry.\<close>

definition session_submenu :: "string \<times> session \<Rightarrow> menu_entry" where
  "session_submenu p =
     Entry (fst p) None None
       (Some (Entry ''Disconnect'' None (Some (Click_win_emit (win (snd p)) ''vnc:disconnect'')) None #
              [power_item ''Send Ctrl+Alt+Del'' (snd p) ''vnc:cad'',
               power_item ''Send shutdown signal'' (snd p) ''vnc:shutdown'',
               power_item ''Send reboot signal'' (snd p) ''vnc:reboot'',
               power_item ''Send reset signal'' (snd p) ''vnc:reset'']))"

definition getSessionMenu :: "app \<Rightarrow> menu_entry list" where
  "getSessionMenu st = map session_submenu (Object_entries (sessions st))"

definition tray_menu :: "app \<Rightarrow> menu_entry list" where
  "tray_menu st =
     [Entry ''Create VNC connection'' None (Some Click_createConnectionWindow) None,
      Entry ''Sessions'' (Some (length (Object_keys (sessions st)) \<le> 0)) None
        (Some (getSessionMenu st)),
      Entry ''Quit'' None (Some Click_proc_destroy) None]"

definition tray_onclick :: "app \<Rightarrow> jsval \<Rightarrow> app" where
  "tray_onclick st ev = add_call (Make_contextmenu ev (tray_menu st)) st"


section \<open>The host's event emitters and windows\<close>

text \<open>
  The desktop host and the RFB library are dependencies of this repository. The model
  keeps of them what the program relies on: \<^verbatim>\<open>on\<close> and \<^verbatim>\<open>addEventListener\<close> add a
  listener under a name, \<^verbatim>\<open>emit\<close> calls the listeners of that name in the order they were
  added, with the arguments given, and an exception leaves through the caller;
  \<^verbatim>\<open>createWindow\<close> makes a new window; \<^verbatim>\<open>render\<close> runs its callback on the window and
  emits \<^verbatim>\<open>render\<close>; \<^verbatim>\<open>destroy\<close> marks a window that is not destroyed yet as destroyed,
  emits \<^verbatim>\<open>destroy\<close> on it and then removes all its listeners, and does nothing on a
  window that is destroyed already; \<^verbatim>\<open>close\<close> emits \<^verbatim>\<open>close\<close> and destroys the window.
\<close>

fun run_all :: "('l \<Rightarrow> app \<Rightarrow> error + app) \<Rightarrow> 'l list \<Rightarrow> app \<Rightarrow> error + app" where
  "run_all f [] st = Inr st"
| "run_all f (l # ls) st = (case f l st of Inl e \<Rightarrow> Inl e | Inr st' \<Rightarrow> run_all f ls st')"

definition listeners_for :: "string \<Rightarrow> (string \<times> 'l) list \<Rightarrow> 'l list" where
  "listeners_for name tab = map snd (filter (\<lambda>p. fst p = name) tab)"

definition win_on :: "nat \<Rightarrow> string \<times> win_listener \<Rightarrow> app \<Rightarrow> app" where
  "win_on w nl st =
     st\<lparr>windows := (windows st)[w := (windows st ! w)\<lparr>listeners := listeners (windows st ! w) @ [nl]\<rparr>]\<rparr>"

definition rfb_addEventListener :: "nat \<Rightarrow> string \<times> rfb_listener \<Rightarrow> app \<Rightarrow> app" where
  "rfb_addEventListener r nl st =
     st\<lparr>rfbs := (rfbs st)[r := (rfbs st ! r)\<lparr>rfb_listeners := rfb_listeners (rfbs st ! r) @ [nl]\<rparr>]\<rparr>"

definition win_setTitle :: "nat \<Rightarrow> string \<Rightarrow> app \<Rightarrow> app" where
  "win_setTitle w t st = st\<lparr>windows := (windows st)[w := (windows st ! w)\<lparr>title := t\<rparr>]\<rparr>"

definition proc_createWindow :: "window \<Rightarrow> app \<Rightarrow> app" where
  "proc_createWindow win0 st =
     add_call (Proc_createWindow (length (windows st))) (st\<lparr>windows := windows st @ [win0]\<rparr>)"

section \<open>The VNC window factory (\<^verbatim>\<open>vncWindow\<close>, lines 47 to 111)\<close>

definition createNotification :: "env \<Rightarrow> string \<Rightarrow> app \<Rightarrow> app" where
  "createNotification e message st = add_call (Make_notification (logo e) (mainTitle e) message) st"

definition playSound :: "env \<Rightarrow> string \<Rightarrow> app \<Rightarrow> app" where
  "playSound e name st = (if has_sounds e then add_call (Sounds_play name) st else st)"

definition setTitle :: "env \<Rightarrow> nat \<Rightarrow> string \<Rightarrow> app \<Rightarrow> app" where
  "setTitle e w appended st = win_setTitle w (mainTitle e @ '' - '' @ appended) st"

text \<open>\<^verbatim>\<open>sendKey\<close>: reading \<^verbatim>\<open>ev.code\<close> throws when no event object is given.\<close>

definition sendKey :: "nat \<Rightarrow> jsval \<Rightarrow> bool \<Rightarrow> app \<Rightarrow> error + app" where
  "sendKey r ev down st =
     (case js_prop ev ''code'' of
        Inl err \<Rightarrow> Inl err
      | Inr c \<Rightarrow> Inr (add_call (Rfb_sendKey r 0 c down) st))"

text \<open>The first argument of an event, \<^verbatim>\<open>undefined\<close> when the event was emitted without one.\<close>

definition arg0 :: "jsval list \<Rightarrow> jsval" where
  "arg0 args = (case args of [] \<Rightarrow> JUndefined | a # _ \<Rightarrow> a)"

text \<open>The bodies of the window listeners (lines 91 to 107).\<close>

fun win_listener_body :: "win_listener \<Rightarrow> jsval list \<Rightarrow> app \<Rightarrow> error + app" where
  "win_listener_body (On_focus r) args st = Inr (add_call (Rfb_focus r) st)"
| "win_listener_body (On_blur r) args st = Inr (add_call (Rfb_blur r) st)"
| "win_listener_body (On_keydown r) args st = sendKey r (arg0 args) True st"
| "win_listener_body (On_keyup r) args st = sendKey r (arg0 args) False st"
| "win_listener_body (On_resize r) args st = Inr (add_call (Rfb_windowResize r) st)"
| "win_listener_body (On_vnc_cad r) args st = Inr (add_call (Rfb_sendCtrlAltDel r) st)"
| "win_listener_body (On_vnc_shutdown r) args st = Inr (add_call (Rfb_machineShutdown r) st)"
| "win_listener_body (On_vnc_paste r) args st = Inr (add_call (Rfb_clipboardPasteFrom r (arg0 args)) st)"
| "win_listener_body (On_vnc_reboot r) args st = Inr (add_call (Rfb_machineReboot r) st)"
| "win_listener_body (On_vnc_reset r) args st = Inr (add_call (Rfb_machineReset r) st)"
| "win_listener_body (On_vnc_disconnect r) args st = Inr (add_call (Rfb_disconnect r) st)"
| "win_listener_body (On_destroy u w) args st = proc_emit st (Vnc_destroy_session u w)"
| "win_listener_body (On_render u w opts) args st = proc_emit st (Vnc_create_session u w opts)"

text \<open>
  \<^verbatim>\<open>win.emit(name, ...args)\<close>. Window numbers are handed out by \<open>proc_createWindow\<close>; a
  number that names no window has no listeners.
\<close>

definition win_emit :: "nat \<Rightarrow> string \<Rightarrow> jsval list \<Rightarrow> app \<Rightarrow> error + app" where
  "win_emit w name args st =
     (if w < length (windows st)
      then run_all (\<lambda>l. win_listener_body l args) (listeners_for name (listeners (windows st ! w))) st
      else Inr st)"

text \<open>The emitter of a destroyed window drops every listener it holds.\<close>

definition win_off_all :: "nat \<Rightarrow> app \<Rightarrow> app" where
  "win_off_all w st = st\<lparr>windows := (windows st)[w := (windows st ! w)\<lparr>listeners := []\<rparr>]\<rparr>"

definition win_destroy :: "nat \<Rightarrow> app \<Rightarrow> error + app" where
  "win_destroy w st =
     (if w < length (windows st) \<and> \<not> destroyed (windows st ! w)
      then (case win_emit w ''destroy'' []
                   (st\<lparr>windows := (windows st)[w := (windows st ! w)\<lparr>destroyed := True\<rparr>]\<rparr>) of
              Inl err \<Rightarrow> Inl err
            | Inr st' \<Rightarrow> Inr (win_off_all w st'))
      else Inr st)"

definition win_close :: "nat \<Rightarrow> app \<Rightarrow> error + app" where
  "win_close w st =
     (if w < length (windows st) \<and> \<not> destroyed (windows st ! w)
      then (case win_emit w ''close'' [] (add_call (Win_close w) st) of
              Inl err \<Rightarrow> Inl err
            | Inr st' \<Rightarrow> win_destroy w st')
      else Inr (add_call (Win_close w) st))"

text \<open>
  \<^verbatim>\<open>win.render(callback)\<close>: the callback first, then the \<^verbatim>\<open>render\<close> event, at once or as a
  pending task.
\<close>

definition win_render :: "env \<Rightarrow> nat \<Rightarrow> (nat \<Rightarrow> app \<Rightarrow> error + app) \<Rightarrow> app \<Rightarrow> error + app" where
  "win_render e w callback st =
     (case callback w st of
        Inl err \<Rightarrow> Inl err
      | Inr st' \<Rightarrow>
          if render_sync e then win_emit w ''render'' [] st'
          else Inr (st'\<lparr>pending := pending st' @ [Emit_render w]\<rparr>))"

definition run_task :: "app \<Rightarrow> error + app" where
  "run_task st =
     (case pending st of
        [] \<Rightarrow> Inr st
      | Emit_render w # ts \<Rightarrow> win_emit w ''render'' [] (st\<lparr>pending := ts\<rparr>))"

text \<open>
  The events of the RFB client, by type, each with what the listener reads of it:
  \<^verbatim>\<open>ev.detail\<close>, and for \<^verbatim>\<open>capabilities\<close> the object \<^verbatim>\<open>ev.detail.capabilities\<close> (the library's
  record of what the server supports).
\<close>

datatype rfb_event =
    Ev_securityfailure jsobj
  | Ev_bell
  | Ev_desktopname jsobj
  | Ev_clipboard jsobj
  | Ev_disconnect
  | Ev_connect
  | Ev_capabilities jsobj
  | Ev_credentialsrequired jsobj

fun event_type :: "rfb_event \<Rightarrow> string" where
  "event_type (Ev_securityfailure d) = ''securityfailure''"
| "event_type Ev_bell = ''bell''"
| "event_type (Ev_desktopname d) = ''desktopname''"
| "event_type (Ev_clipboard d) = ''clipboard''"
| "event_type Ev_disconnect = ''disconnect''"
| "event_type Ev_connect = ''connect''"
| "event_type (Ev_capabilities c) = ''capabilities''"
| "event_type (Ev_credentialsrequired d) = ''credentialsrequired''"

text \<open>
  The bodies of the listeners of lines 68 to 88; \<^verbatim>\<open>tatus\<close> is the property name the source
  reads. A listener is only called with an event of the type it was added for, so the
  last case is never taken.
\<close>

definition rfb_listener_body :: "env \<Rightarrow> rfb_listener \<Rightarrow> rfb_event \<Rightarrow> app \<Rightarrow> error + app" where
  "rfb_listener_body e l ev st =
     (case (l, ev) of
        (On_securityfailure, Ev_securityfailure detail) \<Rightarrow>
          Inr (createNotification e
                 (''Security handshake failure ('' @ to_string (js_get detail ''tatus'') @ ''): '' @
                  to_string (js_get detail ''reason'')) st)
      | (On_bell, Ev_bell) \<Rightarrow> Inr (playSound e ''bell'' st)
      | (On_desktopname w, Ev_desktopname detail) \<Rightarrow>
          Inr (setTitle e w (to_string (js_get detail ''name'')) st)
      | (On_clipboard, Ev_clipboard detail) \<Rightarrow>
          Inr (add_call (Clipboard_set (js_get detail ''text'')) st)
      | (On_disconnect u w, Ev_disconnect) \<Rightarrow>
          win_destroy w (createNotification e (''Disconnected from '' @ u) st)
      | (On_connect u w, Ev_connect) \<Rightarrow>
          win_emit w ''resize'' [] (createNotification e (''Connected to '' @ u) st)
      | (On_capabilities u w, Ev_capabilities caps) \<Rightarrow>
          (case proc_emit st (Vnc_update_session u w caps) of
             Inl err \<Rightarrow> Inl err
           | Inr st' \<Rightarrow> Inr (add_call (Console_warn (JObj caps)) st'))
      | (On_credentialsrequired, Ev_credentialsrequired detail) \<Rightarrow>
          Inr (add_call (Console_error (js_get detail ''types'')) st)
      | _ \<Rightarrow> Inr st)"

text \<open>The RFB client \<open>r\<close> dispatches an event to its listeners.\<close>

definition rfb_dispatchEvent :: "env \<Rightarrow> nat \<Rightarrow> rfb_event \<Rightarrow> app \<Rightarrow> error + app" where
  "rfb_dispatchEvent e r ev st =
     (if r < length (rfbs st)
      then run_all (\<lambda>l. rfb_listener_body e l ev)
             (listeners_for (event_type ev) (rfb_listeners (rfbs st ! r))) st
      else Inr st)"

text \<open>
  \<^verbatim>\<open>new RFB($content, url, Object.assign({shared: true}, options))\<close>: the model records the
  window whose content element the client is attached to, the URL and the merged options.
\<close>

definition new_RFB :: "nat \<Rightarrow> string \<Rightarrow> jsobj \<Rightarrow> app \<Rightarrow> app" where
  "new_RFB w u opts st =
     add_call (New_RFB (length (rfbs st)))
       (st\<lparr>rfbs := rfbs st @
          [\<lparr>rfb_target = w, rfb_url = u,
            rfb_options = Object_assign [(''shared'', JBool True)] opts,
            rfb_options_proto = Object_assign_proto [(''shared'', JBool True)] opts,
            rfb_listeners = []\<rparr>]\<rparr>)"

text \<open>
  The render callback of a VNC window (lines 60 to 110), for the window \<open>w\<close>: the client,
  its listeners (lines 68 to 88), the window's listeners (lines 91 to 107), each added in
  the order of the source, and a first \<^verbatim>\<open>resize\<close>.
\<close>

definition vncWindow_rfb_listeners :: "string \<Rightarrow> nat \<Rightarrow> (string \<times> rfb_listener) list" where
  "vncWindow_rfb_listeners u w =
     [(''securityfailure'', On_securityfailure),
      (''bell'', On_bell),
      (''desktopname'', On_desktopname w),
      (''clipboard'', On_clipboard),
      (''disconnect'', On_disconnect u w),
      (''connect'', On_connect u w),
      (''capabilities'', On_capabilities u w),
      (''credentialsrequired'', On_credentialsrequired)]"

definition vncWindow_win_listeners :: "string \<Rightarrow> jsobj \<Rightarrow> nat \<Rightarrow> nat \<Rightarrow> (string \<times> win_listener) list" where
  "vncWindow_win_listeners u opts w r =
     [(''focus'', On_focus r),
      (''blur'', On_blur r),
      (''keydown'', On_keydown r),
      (''keyup'', On_keyup r),
      (''resize'', On_resize r),
      (''vnc:cad'', On_vnc_cad r),
      (''vnc:shutdown'', On_vnc_shutdown r),
      (''vnc:paste'', On_vnc_paste r),
      (''vnc:reboot'', On_vnc_reboot r),
      (''vnc:reset'', On_vnc_reset r),
      (''vnc:disconnect'', On_vnc_disconnect r),
      (''destroy'', On_destroy u w),
      (''render'', On_render u w opts)]"

definition vncWindow_render :: "string \<Rightarrow> jsobj \<Rightarrow> nat \<Rightarrow> app \<Rightarrow> error + app" where
  "vncWindow_render u opts w st =
     (let r = length (rfbs st);
          st1 = new_RFB w u opts st;
          st2 = fold (rfb_addEventListener r) (vncWindow_rfb_listeners u w) st1;
          st3 = fold (win_on w) (vncWindow_win_listeners u opts w r) st2
      in win_emit w ''resize'' [] st3)"

text \<open>
  \<^verbatim>\<open>createVncWindow(url, options)\<close>, the function \<^verbatim>\<open>vncWindow(core, proc)\<close> returns. The
  second argument is \<open>None\<close> when the caller passes \<^verbatim>\<open>undefined\<close>, and then defaults to the
  empty object.
\<close>

definition createVncWindow :: "env \<Rightarrow> string \<Rightarrow> jsobj option \<Rightarrow> app \<Rightarrow> error + app" where
  "createVncWindow e u arg st =
     (let opts = (case arg of None \<Rightarrow> [] | Some obj \<Rightarrow> obj);
          w = length (windows st)
      in win_render e w (vncWindow_render u opts)
           (proc_createWindow
              \<lparr>icon = logo e,
               title = mainTitle e @ '' - Connecting to '' @ u,
               dimension = (800, 600),
               position = None,
               sessionable = None,
               listeners = [],
               destroyed = False,
               dialog = None\<rparr> st))"

section \<open>The connection dialog (\<^verbatim>\<open>connectionWindow\<close>, lines 116 to 157)\<close>

text \<open>
  The three objects the text fields pass to \<^verbatim>\<open>actions.setState\<close>: \<^verbatim>\<open>{url}\<close>, \<^verbatim>\<open>{username}\<close>
  and \<^verbatim>\<open>{password}\<close>. The action returns the object, and hyperapp merges it into the state.
\<close>

datatype partial_state = Url string | Username string | Password string

fun merge_state :: "partial_state \<Rightarrow> dialog_state \<Rightarrow> dialog_state" where
  "merge_state (Url v) d = d\<lparr>state_url := v\<rparr>"
| "merge_state (Username v) d = d\<lparr>state_username := v\<rparr>"
| "merge_state (Password v) d = d\<lparr>state_password := v\<rparr>"

definition action_setState :: "nat \<Rightarrow> partial_state \<Rightarrow> app \<Rightarrow> app" where
  "action_setState w a st =
     (case dialog (windows st ! w) of
        None \<Rightarrow> st
      | Some d \<Rightarrow> st\<lparr>windows := (windows st)[w := (windows st ! w)\<lparr>dialog := Some (merge_state a d)\<rparr>]\<rparr>)"

definition action_close :: "nat \<Rightarrow> app \<Rightarrow> error + app" where
  "action_close w st = win_close w st"

text \<open>
  \<^verbatim>\<open>actions.connect\<close>: \<^verbatim>\<open>actions.close()\<close>, then the callback that \<^verbatim>\<open>register\<close> passes to
  \<^verbatim>\<open>connectionWindow\<close>, which is \<^verbatim>\<open>createVncWindow(url, options)\<close>, on the form's state at the
  time of the click.
\<close>

definition action_connect :: "env \<Rightarrow> nat \<Rightarrow> app \<Rightarrow> error + app" where
  "action_connect e w st =
     (case dialog (windows st ! w) of
        None \<Rightarrow> Inr st
      | Some d \<Rightarrow>
          (case action_close w st of
             Inl err \<Rightarrow> Inl err
           | Inr st' \<Rightarrow>
               createVncWindow e (state_url d)
                 (Some [(''credentials'',
                         JObj [(''username'', JStr (state_username d)),
                               (''password'', JStr (state_password d))])]) st'))"

text \<open>The render callback of the dialog starts the form with its initial state.\<close>

definition connectionWindow_render :: "nat \<Rightarrow> app \<Rightarrow> error + app" where
  "connectionWindow_render w st =
     Inr (st\<lparr>windows := (windows st)[w := (windows st ! w)
            \<lparr>dialog := Some \<lparr>state_url = ''ws://10.0.0.74:6080'', state_username = [],
                              state_password = ''abc123''\<rparr>\<rparr>]\<rparr>)"

definition createConnectionWindow :: "env \<Rightarrow> app \<Rightarrow> error + app" where
  "createConnectionWindow e st =
     (let w = length (windows st)
      in win_render e w connectionWindow_render
           (proc_createWindow
              \<lparr>icon = logo e,
               title = mainTitle e,
               dimension = (400, 300),
               position = Some ''center'',
               sessionable = Some False,
               listeners = [],
               destroyed = False,
               dialog = None\<rparr> st))"

section \<open>Registration (\<^verbatim>\<open>register\<close>, lines 162 to 246)\<close>

text \<open>
  \<^verbatim>\<open>o[k]\<close> on \<^verbatim>\<open>args.sessions\<close>: the own property; else, for a name that
  \<^verbatim>\<open>Object.prototype\<close> defines, the inherited member, an object without own enumerable
  properties, which is written as the empty object here; else \<^verbatim>\<open>undefined\<close>.
\<close>

definition saved_options :: "(string \<times> jsobj) list \<Rightarrow> string \<Rightarrow> jsobj option" where
  "saved_options obj u =
     (case map_of obj u of
        Some v \<Rightarrow> Some v
      | None \<Rightarrow> if u \<in> set Object_prototype_keys then Some [] else None)"

text \<open>
  One step of the \<^verbatim>\<open>forEach\<close> of line 240. \<^verbatim>\<open>args.sessions\<close> is read again at every step:
  it is \<^verbatim>\<open>proc.args.sessions\<close> when the host shares the \<^verbatim>\<open>args\<close> object with the
  application, and the object \<open>saved\<close> that was passed to \<^verbatim>\<open>register\<close> otherwise.
\<close>

definition restore_session :: "env \<Rightarrow> (string \<times> jsobj) list \<Rightarrow> string \<Rightarrow> app \<Rightarrow> error + app" where
  "restore_session e saved u st =
     (if args_shared e
      then (case proc_args_sessions st of
              None \<Rightarrow> Inl TypeError
            | Some cur \<Rightarrow> createVncWindow e u (saved_options cur u) st)
      else createVncWindow e u (saved_options saved u) st)"

definition initial :: "env \<Rightarrow> (string \<times> jsobj) list option \<Rightarrow> app" where
  "initial e args_sessions =
     \<lparr>sessions = [], sessions_proto = False, object_prototype_capabilities = False,
      proc_args_sessions = args_sessions, windows = [], rfbs = [], pending = [],
      calls = [Make_tray (logo e)]\<rparr>"

definition register :: "env \<Rightarrow> (string \<times> jsobj) list option \<Rightarrow> error + app" where
  "register e args_sessions =
     (case args_sessions of
        Some saved \<Rightarrow> run_all (restore_session e saved) (Object_keys saved) (initial e args_sessions)
      | None \<Rightarrow> createConnectionWindow e (initial e args_sessions))"

section \<open>Reachable states\<close>

text \<open>
  One event: a pending task of the host, an event emitted on a window, a window closed or
  destroyed, an event of an RFB client, input and the two buttons of a dialog, a click on
  the tray icon or on its first menu entry, and the application's own \<^verbatim>\<open>destroy\<close>. The
  reachable states are the one \<^verbatim>\<open>register\<close> returns and those that events lead to from it.
\<close>

inductive step :: "env \<Rightarrow> app \<Rightarrow> app \<Rightarrow> bool" for e :: env where
  step_task: "run_task st = Inr st' \<Longrightarrow> step e st st'"
| step_win_emit: "win_emit w name args st = Inr st' \<Longrightarrow> step e st st'"
| step_win_close: "win_close w st = Inr st' \<Longrightarrow> step e st st'"
| step_win_destroy: "win_destroy w st = Inr st' \<Longrightarrow> step e st st'"
| step_rfb_event: "rfb_dispatchEvent e r ev st = Inr st' \<Longrightarrow> step e st st'"
| step_setState: "step e st (action_setState w a st)"
| step_connect: "action_connect e w st = Inr st' \<Longrightarrow> step e st st'"
| step_tray: "step e st (tray_onclick st ev)"
| step_dialog: "createConnectionWindow e st = Inr st' \<Longrightarrow> step e st st'"
| step_proc_destroy: "proc_emit st Destroy = Inr st' \<Longrightarrow> step e st st'"

inductive reachable :: "env \<Rightarrow> app \<Rightarrow> bool" for e :: env where
  reach_register: "register e a = Inr st \<Longrightarrow> reachable e st"
| reach_step: "reachable e st \<Longrightarrow> step e st st' \<Longrightarrow> reachable e st'"

section \<open>Invariants\<close>

text \<open>
  The session store is a mapping: no URL has two entries, and \<^verbatim>\<open>__proto__\<close> is never an
  own key.
\<close>

definition sessions_ok :: "app \<Rightarrow> bool" where
  "sessions_ok st \<longleftrightarrow>
     distinct (map fst (sessions st)) \<and> ''__proto__'' \<notin> fst ` set (sessions st)"

text \<open>
  What an event that creates no window leaves as it is: which windows are dialogs, and the
  target, URL and listeners of every RFB client. A window that is not destroyed afterwards
  was not destroyed before and has kept its listeners; a window that is destroyed has
  either kept them or lost them all.
\<close>

definition shape ::
  "app \<Rightarrow> bool list \<times> (nat \<times> string \<times> (string \<times> rfb_listener) list) list" where
  "shape st =
     (map (\<lambda>x. dialog x = None) (windows st),
      map (\<lambda>c. (rfb_target c, rfb_url c, rfb_listeners c)) (rfbs st))"

definition kept :: "window \<Rightarrow> window \<Rightarrow> bool" where
  "kept x x' \<longleftrightarrow>
     (\<not> destroyed x' \<longrightarrow> \<not> destroyed x \<and> listeners x' = listeners x) \<and>
     (listeners x' = listeners x \<or> listeners x' = [])"

definition evolves :: "app \<Rightarrow> app \<Rightarrow> bool" where
  "evolves st st' \<longleftrightarrow>
     shape st' = shape st \<and>
     (\<forall>w < length (windows st). kept (windows st ! w) (windows st' ! w)) \<and>
     (sessions_ok st \<longrightarrow> sessions_ok st')"

text \<open>
  Every RFB client has the listeners of lines 68 to 88 for its URL and its window, and that
  window, as long as it is not destroyed, has the listeners of lines 91 to 107 for the
  same URL and this client; a dialog window has no listeners; every other window is the
  target of an RFB client.
\<close>

definition rfbs_wired :: "app \<Rightarrow> bool" where
  "rfbs_wired st \<longleftrightarrow>
     (\<forall>r < length (rfbs st).
        rfb_target (rfbs st ! r) < length (windows st) \<and>
        rfb_listeners (rfbs st ! r) =
          vncWindow_rfb_listeners (rfb_url (rfbs st ! r)) (rfb_target (rfbs st ! r)) \<and>
        (\<not> destroyed (windows st ! rfb_target (rfbs st ! r)) \<longrightarrow>
           (\<exists>opts. listeners (windows st ! rfb_target (rfbs st ! r)) =
              vncWindow_win_listeners (rfb_url (rfbs st ! r)) opts (rfb_target (rfbs st ! r)) r)))"

definition dialogs_bare :: "app \<Rightarrow> bool" where
  "dialogs_bare st \<longleftrightarrow>
     (\<forall>w < length (windows st).
        dialog (windows st ! w) \<noteq> None \<longrightarrow> listeners (windows st ! w) = [])"

definition windows_have_rfb :: "app \<Rightarrow> bool" where
  "windows_have_rfb st \<longleftrightarrow>
     (\<forall>w < length (windows st).
        dialog (windows st ! w) = None \<longrightarrow>
          (\<exists>r < length (rfbs st). rfb_target (rfbs st ! r) = w))"

definition app_inv :: "app \<Rightarrow> bool" where
  "app_inv st \<longleftrightarrow> sessions_ok st \<and> rfbs_wired st \<and> dialogs_bare st \<and> windows_have_rfb st"

text \<open>The window and the client that one call of \<^verbatim>\<open>createVncWindow\<close> adds to the state.\<close>

definition vnc_window :: "env \<Rightarrow> string \<Rightarrow> jsobj \<Rightarrow> nat \<Rightarrow> nat \<Rightarrow> window" where
  "vnc_window e u opts w r =
     \<lparr>icon = logo e, title = mainTitle e @ '' - Connecting to '' @ u, dimension = (800, 600),
      position = None, sessionable = None, listeners = vncWindow_win_listeners u opts w r,
      destroyed = False, dialog = None\<rparr>"

definition vnc_rfb :: "string \<Rightarrow> jsobj \<Rightarrow> nat \<Rightarrow> rfb" where
  "vnc_rfb u opts w =
     \<lparr>rfb_target = w, rfb_url = u,
      rfb_options = Object_assign [(''shared'', JBool True)] opts,
      rfb_options_proto = Object_assign_proto [(''shared'', JBool True)] opts,
      rfb_listeners = vncWindow_rfb_listeners u w\<rparr>"

definition opened :: "env \<Rightarrow> string \<Rightarrow> jsobj \<Rightarrow> app \<Rightarrow> app" where
  "opened e u opts st =
     st\<lparr>windows := windows st @ [vnc_window e u opts (length (windows st)) (length (rfbs st))],
        rfbs := rfbs st @ [vnc_rfb u opts (length (windows st))],
        calls := calls st @ [Proc_createWindow (length (windows st)), New_RFB (length (rfbs st)),
                             Rfb_windowResize (length (rfbs st))]\<rparr>"

section \<open>Example runs\<close>

text \<open>
  A host that emits \<^verbatim>\<open>render\<close> from a later task and shares \<^verbatim>\<open>args\<close> with the application,
  and some runs on it: the application is started without saved sessions; the user presses
  Connect in the dialog; the host delivers the two pending \<^verbatim>\<open>render\<close> events. In
  \<open>example_proto\<close> the user has typed \<^verbatim>\<open>__proto__\<close> into the URL field first.
\<close>

definition env0 :: env where
  "env0 = \<lparr>mainTitle = ''VNC'', logo = ''logo.png'', has_sounds = True, render_sync = False,
            args_shared = True\<rparr>"

definition example_dialog :: app where
  "example_dialog = (case register env0 None of Inr st \<Rightarrow> st | Inl err \<Rightarrow> initial env0 None)"

definition example_connected :: app where
  "example_connected =
     (case action_connect env0 0 example_dialog of Inr st \<Rightarrow> st | Inl err \<Rightarrow> example_dialog)"

definition example_session :: app where
  "example_session =
     (case run_task example_connected of
        Inr st \<Rightarrow> (case run_task st of Inr st' \<Rightarrow> st' | Inl err \<Rightarrow> st)
      | Inl err \<Rightarrow> example_connected)"

definition example_proto :: app where
  "example_proto =
     (case action_connect env0 0 (action_setState 0 (Url ''__proto__'') example_dialog) of
        Inr st \<Rightarrow>
          (case run_task st of
             Inr st' \<Rightarrow> (case run_task st' of Inr st'' \<Rightarrow> st'' | Inl err \<Rightarrow> st')
           | Inl err \<Rightarrow> st)
      | Inl err \<Rightarrow> example_dialog)"

text \<open>The server of the example session announces that it supports power control.\<close>

definition example_capable :: app where
  "example_capable =
     (case rfb_dispatchEvent env0 0 (Ev_capabilities [(''power'', JBool True)]) example_session of
        Inr st \<Rightarrow> st
      | Inl err \<Rightarrow> example_session)"

text \<open>
  The user closes the window of the example session, which leaves its RFB client as it is,
  and then connects to the same URL again: a new dialog from the tray menu, Connect, and the
  two pending \<^verbatim>\<open>render\<close> events.
\<close>

definition example_closed :: app where
  "example_closed = (case win_close 1 example_session of Inr st \<Rightarrow> st | Inl err \<Rightarrow> example_session)"

definition example_redialled :: app where
  "example_redialled =
     (case createConnectionWindow env0 example_closed of
        Inr st \<Rightarrow> (case action_connect env0 2 st of Inr st' \<Rightarrow> st' | Inl err \<Rightarrow> st)
      | Inl err \<Rightarrow> example_closed)"

definition example_reopened :: app where
  "example_reopened =
     (case run_task example_redialled of
        Inr st \<Rightarrow> (case run_task st of Inr st' \<Rightarrow> st' | Inl err \<Rightarrow> st)
      | Inl err \<Rightarrow> example_redialled)"

text \<open>
  The windows and the clients that restoring a list of saved sessions creates, numbered from
  \<open>w\<close> and \<open>r\<close> on.
\<close>

fun restored_windows :: "env \<Rightarrow> nat \<Rightarrow> nat \<Rightarrow> (string \<times> jsobj) list \<Rightarrow> window list" where
  "restored_windows e w r [] = []"
| "restored_windows e w r (p # ps) =
     vnc_window e (fst p) (snd p) w r # restored_windows e (Suc w) (Suc r) ps"

fun restored_rfbs :: "nat \<Rightarrow> (string \<times> jsobj) list \<Rightarrow> rfb list" where
  "restored_rfbs w [] = []"
| "restored_rfbs w (p # ps) = vnc_rfb (fst p) (snd p) w # restored_rfbs (Suc w) ps"


section \<open>Plain objects\<close>

lemma set_Object_entries: "set (Object_entries obj) = set obj"
  by (auto simp: Object_entries_def)

lemma distinct_Object_entries:
  assumes "distinct (map fst obj)"
  shows "distinct (map fst (Object_entries obj))"
proof -
  from assms have d: "distinct obj" and i: "inj_on fst (set obj)"
    by (simp_all add: distinct_map)
  have "distinct (Object_entries obj)"
    using d by (auto simp: Object_entries_def)
  moreover have "inj_on fst (set (Object_entries obj))"
    using i by (simp add: set_Object_entries)
  ultimately show ?thesis by (simp add: distinct_map)
qed

lemma map_of_Object_entries:
  "distinct (map fst obj) \<Longrightarrow> map_of (Object_entries obj) = map_of obj"
  by (simp add: map_of_inject_set distinct_Object_entries set_Object_entries)

lemma set_Object_keys: "set (Object_keys obj) = fst ` set obj"
  by (simp add: Object_keys_def set_Object_entries)

lemma map_of_js_set:
  "k \<noteq> ''__proto__'' \<Longrightarrow> map_of (js_set k v obj) = (map_of obj)(k \<mapsto> v)"
  by (simp add: js_set_def update_conv')

lemma map_of_js_set_other:
  "k' \<noteq> k \<Longrightarrow> map_of (js_set k v obj) k' = map_of obj k'"
  by (simp add: js_set_def update_conv')

lemma keys_js_set: "fst ` set (js_set k v obj) \<subseteq> insert k (fst ` set obj)"
  by (auto simp: js_set_def dom_update)

lemma distinct_js_set: "distinct (map fst obj) \<Longrightarrow> distinct (map fst (js_set k v obj))"
  by (simp add: js_set_def distinct_update)

lemma fold_js_set:
  "k \<noteq> ''__proto__'' \<Longrightarrow> distinct (map fst ps) \<Longrightarrow>
   map_of (fold (\<lambda>p t. js_set (fst p) (snd p) t) ps t) k =
     (case map_of ps k of Some v \<Rightarrow> Some v | None \<Rightarrow> map_of t k)"
proof (induction ps arbitrary: t)
  case Nil
  then show ?case by simp
next
  case (Cons p ps)
  show ?case
  proof (cases "fst p = k")
    case True
    with Cons.prems have "map_of ps k = None"
      by (auto simp: map_of_eq_None_iff)
    with Cons True show ?thesis
      by (cases p) (simp add: map_of_js_set)
  next
    case False
    with Cons show ?thesis
      by (cases p) (simp add: map_of_js_set_other split: option.splits)
  qed
qed

lemma map_of_Object_assign:
  "k \<noteq> ''__proto__'' \<Longrightarrow> distinct (map fst src) \<Longrightarrow>
   map_of (Object_assign tgt src) k =
     (case map_of src k of Some v \<Rightarrow> Some v | None \<Rightarrow> map_of tgt k)"
  by (simp add: Object_assign_def fold_js_set distinct_Object_entries map_of_Object_entries)

section \<open>The session store and what is persisted of it\<close>

lemma keys_fold_js_set:
  "fst ` set (fold (\<lambda>p t. js_set (fst p) (snd p) t) ps t) \<subseteq> fst ` set ps \<union> fst ` set t"
proof (induction ps arbitrary: t)
  case Nil
  then show ?case by simp
next
  case (Cons p ps)
  have "fst ` set (fold (\<lambda>p t. js_set (fst p) (snd p) t) ps (js_set (fst p) (snd p) t))
          \<subseteq> fst ` set ps \<union> fst ` set (js_set (fst p) (snd p) t)"
    by (rule Cons.IH)
  also have "\<dots> \<subseteq> fst ` set ps \<union> insert (fst p) (fst ` set t)"
    using keys_js_set [of "fst p" "snd p" t] by blast
  finally show ?case by auto
qed

lemma distinct_fold_js_set:
  "distinct (map fst t) \<Longrightarrow> distinct (map fst (fold (\<lambda>p t. js_set (fst p) (snd p) t) ps t))"
  by (induction ps arbitrary: t) (simp_all add: distinct_js_set)

lemma keys_Object_assign:
  "fst ` set (Object_assign tgt src) \<subseteq> fst ` set src \<union> fst ` set tgt"
  using keys_fold_js_set [of "Object_entries src" tgt]
  by (simp add: Object_assign_def set_Object_entries)

lemma distinct_Object_assign:
  "distinct (map fst tgt) \<Longrightarrow> distinct (map fst (Object_assign tgt src))"
  by (simp add: Object_assign_def distinct_fold_js_set)

lemma map_of_Object_assign_single:
  assumes "distinct (map fst acc)" and "''__proto__'' \<notin> fst ` set acc" and "k \<noteq> ''__proto__''"
  shows "map_of (Object_assign [(k, v)] acc) k' =
           (case map_of acc k' of Some x \<Rightarrow> Some x | None \<Rightarrow> if k' = k then Some v else None)"
proof (cases "k' = ''__proto__''")
  case True
  have "fst ` set (Object_assign [(k, v)] acc) \<subseteq> fst ` set acc \<union> {k}"
    using keys_Object_assign [of "[(k, v)]" acc] by simp
  with assms True have "k' \<notin> fst ` set (Object_assign [(k, v)] acc)" by auto
  then have "map_of (Object_assign [(k, v)] acc) k' = None"
    by (simp add: map_of_eq_None_iff)
  moreover from assms True have "map_of acc k' = None"
    by (simp add: map_of_eq_None_iff)
  ultimately show ?thesis using assms True by simp
next
  case False
  with assms show ?thesis by (simp add: map_of_Object_assign split: option.splits)
qed

lemma persist_fold:
  assumes "distinct (map fst acc)" and "''__proto__'' \<notin> fst ` set acc"
    and "''__proto__'' \<notin> fst ` set ps"
  shows "map_of (fold (\<lambda>p result. Object_assign [(fst p, options (snd p))] result) ps acc) k =
           (case map_of acc k of Some x \<Rightarrow> Some x | None \<Rightarrow> map_option options (map_of ps k))"
  using assms
proof (induction ps arbitrary: acc)
  case Nil
  then show ?case by (simp split: option.splits)
next
  case (Cons p ps)
  let ?acc = "Object_assign [(fst p, options (snd p))] acc"
  have d: "distinct (map fst ?acc)" by (simp add: distinct_Object_assign)
  have "fst ` set ?acc \<subseteq> fst ` set acc \<union> {fst p}"
    using keys_Object_assign [of "[(fst p, options (snd p))]" acc] by simp
  with Cons.prems have n: "''__proto__'' \<notin> fst ` set ?acc" by auto
  from Cons.prems have ps: "''__proto__'' \<notin> fst ` set ps" and p: "fst p \<noteq> ''__proto__''" by auto
  have step: "map_of ?acc k =
      (case map_of acc k of Some x \<Rightarrow> Some x | None \<Rightarrow> if k = fst p then Some (options (snd p)) else None)"
    using Cons.prems p by (simp add: map_of_Object_assign_single)
  show ?case
    using Cons.IH [OF d n ps] step by (cases p) (simp split: option.splits)
qed

lemma persisted_sessions:
  assumes "sessions_ok st"
  shows "\<exists>m. proc_args_sessions (updateApplicationSession st) = Some m \<and>
             (\<forall>k. map_of m k = map_option options (map_of (sessions st) k))"
proof -
  from assms have d: "distinct (map fst (sessions st))"
    and n: "''__proto__'' \<notin> fst ` set (Object_entries (sessions st))"
    by (simp_all add: sessions_ok_def set_Object_entries)
  show ?thesis
    using persist_fold [OF _ _ n, of "[]"] d
    by (simp add: updateApplicationSession_def map_of_Object_entries)
qed

lemma sessions_updateApplicationSession [simp]:
  "sessions (updateApplicationSession st) = sessions st"
  by (simp add: updateApplicationSession_def)

lemma proto_notin_js_set:
  assumes "''__proto__'' \<notin> fst ` set obj"
  shows "''__proto__'' \<notin> fst ` set (js_set k v obj)"
proof (cases "k = ''__proto__''")
  case True
  with assms have "map_of obj k = None" by (simp add: map_of_eq_None_iff)
  with True assms show ?thesis by (simp add: js_set_def)
next
  case False
  with assms keys_js_set [of k v obj] show ?thesis by auto
qed

lemma sessions_ok_create: "sessions_ok st \<Longrightarrow> sessions_ok (on_vnc_create_session st u w opts)"
  by (simp add: sessions_ok_def on_vnc_create_session_def distinct_js_set proto_notin_js_set)

lemma sessions_ok_destroy: "sessions_ok st \<Longrightarrow> sessions_ok (on_vnc_destroy_session st u w)"
  using dom_delete_subset [of u "sessions st"]
  by (auto simp: sessions_ok_def on_vnc_destroy_session_def js_delete_def distinct_delete)

lemma sessions_ok_update:
  assumes "sessions_ok st" and "on_vnc_update_session st u w caps = Inr st'"
  shows "sessions_ok st'"
proof (cases "map_of (sessions st) u")
  case None
  with assms show ?thesis
    by (auto simp: sessions_ok_def on_vnc_update_session_def sessions_get_def split: if_splits)
next
  case (Some s)
  then have "u \<in> fst ` set (sessions st)"
    by (metis map_of_eq_None_iff option.distinct(1))
  then have "fst ` set (AList.update u (s\<lparr>capabilities := caps\<rparr>) (sessions st)) = fst ` set (sessions st)"
    by (auto simp: dom_update)
  moreover from Some assms
  have "st' = st\<lparr>sessions := AList.update u (s\<lparr>capabilities := caps\<rparr>) (sessions st)\<rparr>"
    by (auto simp: on_vnc_update_session_def sessions_get_def)
  ultimately show ?thesis
    using assms(1) by (simp add: sessions_ok_def distinct_update)
qed

section \<open>What the factories build\<close>

lemma listeners_for_resize [simp]:
  "listeners_for ''resize'' (vncWindow_win_listeners u opts w r) = [On_resize r]"
  by (simp add: listeners_for_def vncWindow_win_listeners_def)

lemma listeners_for_render [simp]:
  "listeners_for ''render'' (vncWindow_win_listeners u opts w r) = [On_render u w opts]"
  by (simp add: listeners_for_def vncWindow_win_listeners_def)

lemma listeners_for_destroy [simp]:
  "listeners_for ''destroy'' (vncWindow_win_listeners u opts w r) = [On_destroy u w]"
  by (simp add: listeners_for_def vncWindow_win_listeners_def)

lemma listeners_for_close [simp]:
  "listeners_for ''close'' (vncWindow_win_listeners u opts w r) = []"
  by (simp add: listeners_for_def vncWindow_win_listeners_def)

lemma listeners_for_keys [simp]:
  "listeners_for ''keydown'' (vncWindow_win_listeners u opts w r) = [On_keydown r]"
  "listeners_for ''keyup'' (vncWindow_win_listeners u opts w r) = [On_keyup r]"
  "listeners_for ''focus'' (vncWindow_win_listeners u opts w r) = [On_focus r]"
  "listeners_for ''blur'' (vncWindow_win_listeners u opts w r) = [On_blur r]"
  by (simp_all add: listeners_for_def vncWindow_win_listeners_def)

lemma listeners_for_Nil [simp]: "listeners_for name [] = []"
  by (simp add: listeners_for_def)

lemma fold_win_on:
  "w < length (windows st) \<Longrightarrow>
   fold (win_on w) ls st =
     st\<lparr>windows := (windows st)[w := (windows st ! w)\<lparr>listeners := listeners (windows st ! w) @ ls\<rparr>]\<rparr>"
proof (induction ls arbitrary: st)
  case Nil
  then show ?case by simp
next
  case (Cons l ls)
  then show ?case by (simp add: win_on_def)
qed

lemma fold_rfb_addEventListener:
  "r < length (rfbs st) \<Longrightarrow>
   fold (rfb_addEventListener r) ls st =
     st\<lparr>rfbs := (rfbs st)[r := (rfbs st ! r)\<lparr>rfb_listeners := rfb_listeners (rfbs st ! r) @ ls\<rparr>]\<rparr>"
proof (induction ls arbitrary: st)
  case Nil
  then show ?case by simp
next
  case (Cons l ls)
  then show ?case by (simp add: rfb_addEventListener_def)
qed

lemma vncWindow_render_eq:
  "listeners win0 = [] \<Longrightarrow>
   vncWindow_render u opts (length (windows st)) (proc_createWindow win0 st) =
     Inr (st\<lparr>windows := windows st @
                 [win0\<lparr>listeners := vncWindow_win_listeners u opts (length (windows st)) (length (rfbs st))\<rparr>],
              rfbs := rfbs st @ [vnc_rfb u opts (length (windows st))],
              calls := calls st @ [Proc_createWindow (length (windows st)), New_RFB (length (rfbs st)),
                                   Rfb_windowResize (length (rfbs st))]\<rparr>)"
  by (simp add: vncWindow_render_def proc_createWindow_def new_RFB_def add_call_def Let_def
      fold_win_on fold_rfb_addEventListener win_emit_def vnc_rfb_def)

lemma createVncWindow_eq:
  "createVncWindow e u arg st =
     (let opts = (case arg of None \<Rightarrow> [] | Some obj \<Rightarrow> obj);
          st1 = opened e u opts st
      in if render_sync e then Inr (on_vnc_create_session st1 u (length (windows st)) opts)
         else Inr (st1\<lparr>pending := pending st @ [Emit_render (length (windows st))]\<rparr>))"
  by (simp add: createVncWindow_def Let_def win_render_def vncWindow_render_eq win_emit_def
      opened_def vnc_window_def)

section \<open>Events keep the wiring\<close>

lemma kept_refl [simp]: "kept x x"
  by (simp add: kept_def)

lemma kept_trans: "kept a b \<Longrightarrow> kept b c \<Longrightarrow> kept a c"
  by (auto simp: kept_def)

lemma shape_nth:
  assumes "shape st' = shape st"
  shows "length (windows st') = length (windows st)"
    and "length (rfbs st') = length (rfbs st)"
    and "w < length (windows st) \<Longrightarrow> (dialog (windows st' ! w) = None) = (dialog (windows st ! w) = None)"
    and "r < length (rfbs st) \<Longrightarrow> rfb_target (rfbs st' ! r) = rfb_target (rfbs st ! r)"
    and "r < length (rfbs st) \<Longrightarrow> rfb_url (rfbs st' ! r) = rfb_url (rfbs st ! r)"
    and "r < length (rfbs st) \<Longrightarrow> rfb_listeners (rfbs st' ! r) = rfb_listeners (rfbs st ! r)"
proof -
  from assms have m: "map (\<lambda>x. dialog x = None) (windows st') = map (\<lambda>x. dialog x = None) (windows st)"
    and n: "map (\<lambda>c. (rfb_target c, rfb_url c, rfb_listeners c)) (rfbs st') =
            map (\<lambda>c. (rfb_target c, rfb_url c, rfb_listeners c)) (rfbs st)"
    by (simp_all add: shape_def)
  from m show lw: "length (windows st') = length (windows st)" by (rule map_eq_imp_length_eq)
  from n show lr: "length (rfbs st') = length (rfbs st)" by (rule map_eq_imp_length_eq)
  show "(dialog (windows st' ! w) = None) = (dialog (windows st ! w) = None)"
    if "w < length (windows st)"
    using that lw m nth_map [of w "windows st'" "\<lambda>x. dialog x = None"]
      nth_map [of w "windows st" "\<lambda>x. dialog x = None"]
    by simp
  have "(rfb_target (rfbs st' ! r), rfb_url (rfbs st' ! r), rfb_listeners (rfbs st' ! r)) =
        (rfb_target (rfbs st ! r), rfb_url (rfbs st ! r), rfb_listeners (rfbs st ! r))"
    if "r < length (rfbs st)" for r
    using that lr n nth_map [of r "rfbs st'" "\<lambda>c. (rfb_target c, rfb_url c, rfb_listeners c)"]
      nth_map [of r "rfbs st" "\<lambda>c. (rfb_target c, rfb_url c, rfb_listeners c)"]
    by simp
  then show "r < length (rfbs st) \<Longrightarrow> rfb_target (rfbs st' ! r) = rfb_target (rfbs st ! r)"
    and "r < length (rfbs st) \<Longrightarrow> rfb_url (rfbs st' ! r) = rfb_url (rfbs st ! r)"
    and "r < length (rfbs st) \<Longrightarrow> rfb_listeners (rfbs st' ! r) = rfb_listeners (rfbs st ! r)"
    by simp_all
qed

lemma evolves_refl [simp]: "evolves st st"
  by (simp add: evolves_def)

lemma evolves_length: "evolves st st' \<Longrightarrow> length (windows st') = length (windows st)"
  using shape_nth(1) [of st' st] by (simp add: evolves_def)

lemma evolves_kept:
  "evolves st st' \<Longrightarrow> w < length (windows st) \<Longrightarrow> kept (windows st ! w) (windows st' ! w)"
  by (simp add: evolves_def)

lemma evolves_trans:
  assumes "evolves a b" and "evolves b c"
  shows "evolves a c"
proof -
  have "kept (windows a ! w) (windows c ! w)" if "w < length (windows a)" for w
  proof -
    from that evolves_length [OF assms(1)] have "w < length (windows b)" by simp
    from evolves_kept [OF assms(1) that] evolves_kept [OF assms(2) this]
    show ?thesis by (rule kept_trans)
  qed
  with assms show ?thesis by (simp add: evolves_def)
qed

lemma run_all_evolves:
  assumes "\<And>l s s'. f l s = Inr s' \<Longrightarrow> evolves s s'"
  shows "run_all f ls st = Inr st' \<Longrightarrow> evolves st st'"
proof (induction ls arbitrary: st)
  case Nil
  then show ?case by simp
next
  case (Cons l ls)
  then obtain s1 where a: "f l st = Inr s1" and b: "run_all f ls s1 = Inr st'"
    by (auto split: sum.splits)
  from assms [OF a] Cons.IH [OF b] show ?case by (rule evolves_trans)
qed

lemma evolves_calls: "evolves st (st\<lparr>calls := c\<rparr>)"
  by (simp add: evolves_def shape_def sessions_ok_def)

lemma evolves_add_call: "evolves st (add_call c st)"
  by (simp add: add_call_def evolves_calls)

lemma evolves_create: "evolves st (on_vnc_create_session st u w opts)"
  using sessions_ok_create [of st u w opts]
  by (simp add: evolves_def shape_def on_vnc_create_session_def updateApplicationSession_def)

lemma evolves_destroy: "evolves st (on_vnc_destroy_session st u w)"
  using sessions_ok_destroy [of st u w]
  by (simp add: evolves_def shape_def on_vnc_destroy_session_def updateApplicationSession_def)

lemma evolves_update: "on_vnc_update_session st u w caps = Inr st' \<Longrightarrow> evolves st st'"
  using sessions_ok_update [of st u w caps st']
  by (auto simp: evolves_def shape_def on_vnc_update_session_def split: sessions_value.splits)

lemma evolves_proc_emit: "proc_emit st ev = Inr st' \<Longrightarrow> evolves st st'"
  by (cases ev) (auto simp: evolves_create evolves_destroy evolves_update on_destroy_def evolves_add_call)

lemma evolves_win_listener_body: "win_listener_body l args st = Inr st' \<Longrightarrow> evolves st st'"
  by (cases l) (auto simp: evolves_add_call sendKey_def evolves_create evolves_destroy split: sum.splits)

lemma evolves_win_emit: "win_emit w name args st = Inr st' \<Longrightarrow> evolves st st'"
  by (auto simp: win_emit_def split: if_splits intro: run_all_evolves evolves_win_listener_body)

lemma map_update_same: "f v = f (xs ! i) \<Longrightarrow> map f (xs[i := v]) = map f xs"
  by (metis list_update_id map_update)

lemma evolves_destroyed:
  "evolves st (st\<lparr>windows := (windows st)[w := (windows st ! w)\<lparr>destroyed := True\<rparr>]\<rparr>)"
  by (cases "w < length (windows st)")
    (auto simp: evolves_def shape_def sessions_ok_def map_update_same kept_def nth_list_update)

lemma evolves_win_off_all:
  "destroyed (windows st ! w) \<Longrightarrow> evolves st (win_off_all w st)"
  by (cases "w < length (windows st)")
    (auto simp: win_off_all_def evolves_def shape_def sessions_ok_def map_update_same kept_def
      nth_list_update)

lemma evolves_win_destroy:
  assumes "win_destroy w st = Inr st'"
  shows "evolves st st'"
proof (cases "w < length (windows st) \<and> \<not> destroyed (windows st ! w)")
  case False
  with assms show ?thesis by (auto simp: win_destroy_def)
next
  case True
  let ?d = "st\<lparr>windows := (windows st)[w := (windows st ! w)\<lparr>destroyed := True\<rparr>]\<rparr>"
  from True assms obtain s1 where e: "win_emit w ''destroy'' [] ?d = Inr s1"
    and s: "st' = win_off_all w s1"
    by (auto simp: win_destroy_def split: sum.splits)
  from e have 1: "evolves ?d s1" by (rule evolves_win_emit)
  from True have "w < length (windows ?d)" and "destroyed (windows ?d ! w)" by simp_all
  with evolves_kept [OF 1, of w] have "destroyed (windows s1 ! w)"
    by (auto simp: kept_def)
  then have "evolves s1 (win_off_all w s1)" by (rule evolves_win_off_all)
  with evolves_trans [OF evolves_destroyed 1] s show ?thesis
    by (auto intro: evolves_trans)
qed

lemma evolves_win_close: "win_close w st = Inr st' \<Longrightarrow> evolves st st'"
  by (auto simp: win_close_def evolves_add_call split: if_splits sum.splits
      intro: evolves_trans [OF evolves_add_call evolves_trans [OF evolves_win_emit evolves_win_destroy]])

lemma evolves_setTitle: "evolves st (setTitle e w t st)"
  by (cases "w < length (windows st)")
    (auto simp: setTitle_def win_setTitle_def evolves_def shape_def sessions_ok_def map_update_same
      kept_def nth_list_update)

lemma evolves_rfb_listener_body: "rfb_listener_body e l ev st = Inr st' \<Longrightarrow> evolves st st'"
  by (auto simp: rfb_listener_body_def createNotification_def playSound_def evolves_add_call evolves_setTitle
      split: rfb_listener.splits rfb_event.splits sum.splits if_splits
      intro: evolves_trans [OF evolves_add_call evolves_win_destroy]
             evolves_trans [OF evolves_add_call evolves_win_emit]
             evolves_trans [OF evolves_update evolves_add_call])

lemma evolves_rfb_dispatchEvent: "rfb_dispatchEvent e r ev st = Inr st' \<Longrightarrow> evolves st st'"
  by (auto simp: rfb_dispatchEvent_def split: if_splits intro: run_all_evolves evolves_rfb_listener_body)

lemma evolves_pending: "evolves st (st\<lparr>pending := p\<rparr>)"
  by (simp add: evolves_def shape_def sessions_ok_def)

lemma evolves_run_task: "run_task st = Inr st' \<Longrightarrow> evolves st st'"
  by (auto simp: run_task_def split: list.splits task.splits
      intro: evolves_trans [OF evolves_pending evolves_win_emit])

lemma evolves_setState: "evolves st (action_setState w a st)"
  by (cases "w < length (windows st)")
    (auto simp: action_setState_def evolves_def shape_def sessions_ok_def map_update_same
      kept_def nth_list_update split: option.splits)

lemma evolves_tray: "evolves st (tray_onclick st ev)"
  by (simp add: tray_onclick_def evolves_add_call)

lemma rfbs_wired_evolves:
  assumes "evolves st st'" and "rfbs_wired st"
  shows "rfbs_wired st'"
  unfolding rfbs_wired_def
proof (intro allI impI)
  fix r assume r': "r < length (rfbs st')"
  from assms(1) have sh: "shape st' = shape st" by (simp add: evolves_def)
  from r' shape_nth(2) [OF sh] have r: "r < length (rfbs st)" by simp
  let ?t = "rfb_target (rfbs st ! r)"
  from r assms(2) have t: "?t < length (windows st)"
    and l: "rfb_listeners (rfbs st ! r) = vncWindow_rfb_listeners (rfb_url (rfbs st ! r)) ?t"
    and o: "\<not> destroyed (windows st ! ?t) \<longrightarrow>
           (\<exists>opts. listeners (windows st ! ?t) = vncWindow_win_listeners (rfb_url (rfbs st ! r)) opts ?t r)"
    by (simp_all add: rfbs_wired_def)
  from evolves_kept [OF assms(1) t] o
  have "\<not> destroyed (windows st' ! ?t) \<longrightarrow>
           (\<exists>opts. listeners (windows st' ! ?t) = vncWindow_win_listeners (rfb_url (rfbs st ! r)) opts ?t r)"
    by (auto simp: kept_def)
  with t l r shape_nth [OF sh]
  show "rfb_target (rfbs st' ! r) < length (windows st') \<and>
        rfb_listeners (rfbs st' ! r) =
          vncWindow_rfb_listeners (rfb_url (rfbs st' ! r)) (rfb_target (rfbs st' ! r)) \<and>
        (\<not> destroyed (windows st' ! rfb_target (rfbs st' ! r)) \<longrightarrow>
           (\<exists>opts. listeners (windows st' ! rfb_target (rfbs st' ! r)) =
              vncWindow_win_listeners (rfb_url (rfbs st' ! r)) opts (rfb_target (rfbs st' ! r)) r))"
    by simp
qed

lemma dialogs_bare_evolves:
  assumes "evolves st st'" and "dialogs_bare st"
  shows "dialogs_bare st'"
  unfolding dialogs_bare_def
proof (intro allI impI)
  fix w assume w': "w < length (windows st')" and d: "dialog (windows st' ! w) \<noteq> None"
  from assms(1) have sh: "shape st' = shape st" by (simp add: evolves_def)
  from w' shape_nth(1) [OF sh] have w: "w < length (windows st)" by simp
  with d shape_nth(3) [OF sh] have "dialog (windows st ! w) \<noteq> None" by simp
  with assms(2) w have "listeners (windows st ! w) = []" by (simp add: dialogs_bare_def)
  with evolves_kept [OF assms(1) w] show "listeners (windows st' ! w) = []"
    by (auto simp: kept_def)
qed

lemma windows_have_rfb_shape:
  assumes "shape st' = shape st" and "windows_have_rfb st"
  shows "windows_have_rfb st'"
  unfolding windows_have_rfb_def
proof (intro allI impI)
  fix w assume "w < length (windows st')" and d: "dialog (windows st' ! w) = None"
  with shape_nth(1) [OF assms(1)] have w: "w < length (windows st)" by simp
  with d shape_nth(3) [OF assms(1)] have "dialog (windows st ! w) = None" by simp
  with assms(2) w obtain r where "r < length (rfbs st)" and "rfb_target (rfbs st ! r) = w"
    by (auto simp: windows_have_rfb_def)
  with shape_nth(2,4) [OF assms(1)]
  show "\<exists>r < length (rfbs st'). rfb_target (rfbs st' ! r) = w" by auto
qed

lemma app_inv_evolves:
  assumes "evolves st st'" and "app_inv st"
  shows "app_inv st'"
proof -
  from assms(1) have sh: "shape st' = shape st" and ok: "sessions_ok st \<longrightarrow> sessions_ok st'"
    by (simp_all add: evolves_def)
  from assms(2) ok rfbs_wired_evolves [OF assms(1)] dialogs_bare_evolves [OF assms(1)]
    windows_have_rfb_shape [OF sh]
  show ?thesis by (simp add: app_inv_def)
qed

lemma rfbs_wired_append_window:
  assumes "rfbs_wired st"
  shows "rfbs_wired (st\<lparr>windows := windows st @ [x]\<rparr>)"
  using assms by (auto simp: rfbs_wired_def nth_append)

lemma dialogs_bare_append_window:
  assumes "dialogs_bare st" and "dialog x \<noteq> None \<longrightarrow> listeners x = []"
  shows "dialogs_bare (st\<lparr>windows := windows st @ [x]\<rparr>)"
  using assms by (auto simp: dialogs_bare_def nth_append less_Suc_eq)

lemma rfbs_wired_opened:
  assumes "rfbs_wired st"
  shows "rfbs_wired (opened e u opts st)"
  unfolding rfbs_wired_def
proof (intro allI impI)
  fix r assume "r < length (rfbs (opened e u opts st))"
  then consider "r < length (rfbs st)" | "r = length (rfbs st)"
    by (auto simp: opened_def less_Suc_eq)
  then show "rfb_target (rfbs (opened e u opts st) ! r) < length (windows (opened e u opts st)) \<and>
        rfb_listeners (rfbs (opened e u opts st) ! r) =
          vncWindow_rfb_listeners (rfb_url (rfbs (opened e u opts st) ! r))
            (rfb_target (rfbs (opened e u opts st) ! r)) \<and>
        (\<not> destroyed (windows (opened e u opts st) ! rfb_target (rfbs (opened e u opts st) ! r)) \<longrightarrow>
           (\<exists>opts'. listeners (windows (opened e u opts st) ! rfb_target (rfbs (opened e u opts st) ! r)) =
              vncWindow_win_listeners (rfb_url (rfbs (opened e u opts st) ! r)) opts'
                (rfb_target (rfbs (opened e u opts st) ! r)) r))"
  proof cases
    case 1
    with assms show ?thesis
      by (auto simp: rfbs_wired_def opened_def nth_append)
  next
    case 2
    then show ?thesis
      by (auto simp: opened_def vnc_rfb_def vnc_window_def)
  qed
qed

lemma dialogs_bare_opened:
  assumes "dialogs_bare st"
  shows "dialogs_bare (opened e u opts st)"
  using assms by (auto simp: dialogs_bare_def opened_def nth_append less_Suc_eq vnc_window_def)

lemma windows_have_rfb_append_dialog:
  assumes "windows_have_rfb st" and "dialog x \<noteq> None"
  shows "windows_have_rfb (st\<lparr>windows := windows st @ [x]\<rparr>)"
  using assms by (auto simp: windows_have_rfb_def nth_append less_Suc_eq)

lemma windows_have_rfb_opened:
  assumes "windows_have_rfb st"
  shows "windows_have_rfb (opened e u opts st)"
  unfolding windows_have_rfb_def
proof (intro allI impI)
  fix w assume "w < length (windows (opened e u opts st))"
    and d: "dialog (windows (opened e u opts st) ! w) = None"
  then consider "w < length (windows st)" | "w = length (windows st)"
    by (auto simp: opened_def less_Suc_eq)
  then show "\<exists>r < length (rfbs (opened e u opts st)). rfb_target (rfbs (opened e u opts st) ! r) = w"
  proof cases
    case 1
    with d have "dialog (windows st ! w) = None" by (simp add: opened_def nth_append)
    with assms 1 obtain r where "r < length (rfbs st)" and "rfb_target (rfbs st ! r) = w"
      by (auto simp: windows_have_rfb_def)
    then have "r < length (rfbs (opened e u opts st)) \<and> rfb_target (rfbs (opened e u opts st) ! r) = w"
      by (simp add: opened_def nth_append)
    then show ?thesis by blast
  next
    case 2
    then have "length (rfbs st) < length (rfbs (opened e u opts st)) \<and>
               rfb_target (rfbs (opened e u opts st) ! length (rfbs st)) = w"
      by (simp add: opened_def vnc_rfb_def)
    then show ?thesis by blast
  qed
qed

lemma sessions_opened [simp]: "sessions (opened e u opts st) = sessions st"
  by (simp add: opened_def)

lemma app_inv_opened: "app_inv st \<Longrightarrow> app_inv (opened e u opts st)"
  by (simp add: app_inv_def rfbs_wired_opened dialogs_bare_opened windows_have_rfb_opened
      sessions_ok_def)

lemma app_inv_createVncWindow:
  assumes "app_inv st" and "createVncWindow e u arg st = Inr st'"
  shows "app_inv st'"
proof -
  let ?opts = "case arg of None \<Rightarrow> [] | Some obj \<Rightarrow> obj"
  have i: "app_inv (opened e u ?opts st)" using assms(1) by (rule app_inv_opened)
  show ?thesis
  proof (cases "render_sync e")
    case True
    with assms(2) have "st' = on_vnc_create_session (opened e u ?opts st) u (length (windows st)) ?opts"
      by (simp add: createVncWindow_eq Let_def)
    with app_inv_evolves [OF evolves_create i] show ?thesis by simp
  next
    case False
    with assms(2) have "st' = (opened e u ?opts st)\<lparr>pending := pending st @ [Emit_render (length (windows st))]\<rparr>"
      by (simp add: createVncWindow_eq Let_def)
    with app_inv_evolves [OF evolves_pending i] show ?thesis by simp
  qed
qed

lemma createConnectionWindow_eq:
  "createConnectionWindow e st =
     Inr (st\<lparr>windows := windows st @
                 [\<lparr>icon = logo e, title = mainTitle e, dimension = (400, 300),
                   position = Some ''center'', sessionable = Some False, listeners = [],
                   destroyed = False,
                   dialog = Some \<lparr>state_url = ''ws://10.0.0.74:6080'', state_username = [],
                                   state_password = ''abc123''\<rparr>\<rparr>],
              calls := calls st @ [Proc_createWindow (length (windows st))],
              pending := (if render_sync e then pending st
                          else pending st @ [Emit_render (length (windows st))])\<rparr>)"
  by (simp add: createConnectionWindow_def Let_def win_render_def connectionWindow_render_def
      proc_createWindow_def add_call_def win_emit_def)

lemma app_inv_createConnectionWindow:
  assumes "app_inv st" and "createConnectionWindow e st = Inr st'"
  shows "app_inv st'"
proof -
  let ?x = "\<lparr>icon = logo e, title = mainTitle e, dimension = (400, 300),
             position = Some ''center'', sessionable = Some False, listeners = [],
             destroyed = False,
             dialog = Some \<lparr>state_url = ''ws://10.0.0.74:6080'', state_username = [],
                             state_password = ''abc123''\<rparr>\<rparr>"
  from assms(1) have "app_inv (st\<lparr>windows := windows st @ [?x]\<rparr>)"
    by (simp add: app_inv_def rfbs_wired_append_window dialogs_bare_append_window
        windows_have_rfb_append_dialog sessions_ok_def)
  moreover have "evolves (st\<lparr>windows := windows st @ [?x]\<rparr>) st'"
    using assms(2) by (auto simp: createConnectionWindow_eq evolves_def shape_def sessions_ok_def)
  ultimately show ?thesis by (rule app_inv_evolves [rotated])
qed

lemma app_inv_run_all:
  assumes "\<And>l s s'. app_inv s \<Longrightarrow> f l s = Inr s' \<Longrightarrow> app_inv s'"
  shows "app_inv st \<Longrightarrow> run_all f ls st = Inr st' \<Longrightarrow> app_inv st'"
proof (induction ls arbitrary: st)
  case Nil
  then show ?case by simp
next
  case (Cons l ls)
  then obtain s1 where a: "f l st = Inr s1" and b: "run_all f ls s1 = Inr st'"
    by (auto split: sum.splits)
  from assms [OF Cons.prems(1) a] b show ?case by (rule Cons.IH)
qed

lemma app_inv_restore_session: "app_inv st \<Longrightarrow> restore_session e saved u st = Inr st' \<Longrightarrow> app_inv st'"
  by (auto simp: restore_session_def split: if_splits option.splits intro: app_inv_createVncWindow)

lemma app_inv_initial: "app_inv (initial e a)"
  by (simp add: app_inv_def initial_def sessions_ok_def rfbs_wired_def dialogs_bare_def
      windows_have_rfb_def)

lemma app_inv_register: "register e a = Inr st \<Longrightarrow> app_inv st"
  by (auto simp: register_def split: option.splits
      intro: app_inv_createConnectionWindow [OF app_inv_initial]
             app_inv_run_all [OF app_inv_restore_session app_inv_initial])

lemma app_inv_action_connect:
  assumes "app_inv st" and "action_connect e w st = Inr st'"
  shows "app_inv st'"
  using assms
  by (auto simp: action_connect_def action_close_def split: option.splits sum.splits
      intro: app_inv_createVncWindow app_inv_evolves [OF evolves_win_close])

lemma app_inv_step: "step e st st' \<Longrightarrow> app_inv st \<Longrightarrow> app_inv st'"
proof (induction rule: step.induct)
  case (step_task st st')
  then show ?case by (auto intro: app_inv_evolves evolves_run_task)
next
  case (step_win_emit w name args st st')
  then show ?case by (auto intro: app_inv_evolves evolves_win_emit)
next
  case (step_win_close w st st')
  then show ?case by (auto intro: app_inv_evolves evolves_win_close)
next
  case (step_win_destroy w st st')
  then show ?case by (auto intro: app_inv_evolves evolves_win_destroy)
next
  case (step_rfb_event r ev st st')
  then show ?case by (auto intro: app_inv_evolves evolves_rfb_dispatchEvent)
next
  case (step_setState st w a)
  then show ?case by (auto intro: app_inv_evolves evolves_setState)
next
  case (step_connect w st st')
  then show ?case by (auto intro: app_inv_action_connect)
next
  case (step_tray st ev)
  then show ?case by (auto intro: app_inv_evolves evolves_tray)
next
  case (step_dialog st st')
  then show ?case by (auto intro: app_inv_createConnectionWindow)
next
  case (step_proc_destroy st st')
  then show ?case using evolves_proc_emit app_inv_evolves by blast
qed

lemma reachable_inv: "reachable e st \<Longrightarrow> app_inv st"
  by (induction rule: reachable.induct) (auto intro: app_inv_register app_inv_step)

section \<open>The example runs are reachable\<close>

lemma register_example: "register env0 None = Inr example_dialog"
  by (simp add: example_dialog_def register_def createConnectionWindow_eq)

lemma connect_example: "action_connect env0 0 example_dialog = Inr example_connected"
  by code_simp

lemma task_example:
  "case run_task example_connected of
     Inr st \<Rightarrow> run_task st = Inr example_session
   | Inl err \<Rightarrow> False"
  by code_simp

lemma reachable_example_dialog: "reachable env0 example_dialog"
  by (rule reach_register [OF register_example])

lemma reachable_example_connected: "reachable env0 example_connected"
  by (rule reach_step [OF reachable_example_dialog step_connect [OF connect_example]])

lemma reachable_example_session: "reachable env0 example_session"
proof -
  obtain st where a: "run_task example_connected = Inr st" and b: "run_task st = Inr example_session"
    using task_example by (auto split: sum.splits)
  from reach_step [OF reachable_example_connected step_task [OF a]]
  show ?thesis by (rule reach_step [OF _ step_task [OF b]])
qed

lemma capable_example:
  "rfb_dispatchEvent env0 0 (Ev_capabilities [(''power'', JBool True)]) example_session =
     Inr example_capable"
  by code_simp

lemma reachable_example_capable: "reachable env0 example_capable"
  by (rule reach_step [OF reachable_example_session step_rfb_event [OF capable_example]])

lemma close_example: "win_close 1 example_session = Inr example_closed"
  by code_simp

lemma redial_example:
  "case createConnectionWindow env0 example_closed of
     Inr st \<Rightarrow> action_connect env0 2 st = Inr example_redialled
   | Inl err \<Rightarrow> False"
  by code_simp

lemma reopen_example:
  "case run_task example_redialled of
     Inr st \<Rightarrow> run_task st = Inr example_reopened
   | Inl err \<Rightarrow> False"
  by code_simp

lemma reachable_example_closed: "reachable env0 example_closed"
  by (rule reach_step [OF reachable_example_session step_win_close [OF close_example]])

lemma reachable_example_reopened: "reachable env0 example_reopened"
proof -
  obtain s1 where a: "createConnectionWindow env0 example_closed = Inr s1"
    and b: "action_connect env0 2 s1 = Inr example_redialled"
    using redial_example by (auto split: sum.splits)
  obtain s2 where c: "run_task example_redialled = Inr s2" and d: "run_task s2 = Inr example_reopened"
    using reopen_example by (auto split: sum.splits)
  from reach_step [OF reachable_example_closed step_dialog [OF a]]
  have "reachable env0 example_redialled" by (rule reach_step [OF _ step_connect [OF b]])
  from reach_step [OF this step_task [OF c]]
  show ?thesis by (rule reach_step [OF _ step_task [OF d]])
qed

text \<open>A key pressed on the closed window of the example session is not forwarded.\<close>

lemma closed_window_forwards_nothing:
  "listeners (windows example_closed ! 1) = [] \<and>
   win_emit 1 ''keydown'' [JObj [(''code'', JStr ''KeyA'')]] example_closed = Inr example_closed"
  by code_simp

lemma reachable_sessions_ok: "reachable e st \<Longrightarrow> sessions_ok st"
  using reachable_inv [of e st] by (simp add: app_inv_def)

section \<open>What one call of the window factory does\<close>

lemma rfbs_create_session [simp]: "rfbs (on_vnc_create_session st u w opts) = rfbs st"
  by (simp add: on_vnc_create_session_def updateApplicationSession_def)

lemma windows_create_session [simp]: "windows (on_vnc_create_session st u w opts) = windows st"
  by (simp add: on_vnc_create_session_def updateApplicationSession_def)

lemma calls_create_session [simp]: "calls (on_vnc_create_session st u w opts) = calls st"
  by (simp add: on_vnc_create_session_def updateApplicationSession_def)

lemma createVncWindow_result:
  assumes "createVncWindow e u arg st = Inr st'"
  shows "windows st' = windows st @
           [vnc_window e u (case arg of None \<Rightarrow> [] | Some obj \<Rightarrow> obj) (length (windows st)) (length (rfbs st))]"
    and "rfbs st' = rfbs st @ [vnc_rfb u (case arg of None \<Rightarrow> [] | Some obj \<Rightarrow> obj) (length (windows st))]"
    and "calls st' = calls st @ [Proc_createWindow (length (windows st)), New_RFB (length (rfbs st)),
                                 Rfb_windowResize (length (rfbs st))]"
  using assms by (auto simp: createVncWindow_eq Let_def opened_def split: if_splits)

lemma createVncWindow_total: "\<exists>st'. createVncWindow e u arg st = Inr st'"
  by (simp add: createVncWindow_eq Let_def)

lemma createVncWindow_args:
  assumes "createVncWindow e u arg st = Inr st'" and "\<not> render_sync e"
  shows "proc_args_sessions st' = proc_args_sessions st" and "sessions st' = sessions st"
  using assms by (auto simp: createVncWindow_eq Let_def opened_def)

lemma proc_args_create_session:
  "\<exists>m. proc_args_sessions (on_vnc_create_session st u w opts) = Some m"
  by (simp add: on_vnc_create_session_def updateApplicationSession_def)

section \<open>Restoring saved sessions\<close>

lemma restore_session_eq:
  assumes "\<not> (render_sync e \<and> args_shared e)" and "map_of saved u = Some obj"
    and "args_shared e \<longrightarrow> proc_args_sessions st = Some saved"
  shows "restore_session e saved u st = createVncWindow e u (Some obj) st"
  using assms by (simp add: restore_session_def saved_options_def)

lemma restore_session_step:
  assumes "map_of saved u = Some obj"
    and "args_shared e \<longrightarrow>
           (if render_sync e then proc_args_sessions st \<noteq> None else proc_args_sessions st = Some saved)"
  shows "\<exists>st' obj'. restore_session e saved u st = Inr st' \<and>
           (\<not> (render_sync e \<and> args_shared e) \<longrightarrow> obj' = obj) \<and>
           windows st' = windows st @ [vnc_window e u obj' (length (windows st)) (length (rfbs st))] \<and>
           rfbs st' = rfbs st @ [vnc_rfb u obj' (length (windows st))] \<and>
           (args_shared e \<longrightarrow>
              (if render_sync e then proc_args_sessions st' \<noteq> None
               else proc_args_sessions st' = Some saved))"
proof (cases "render_sync e \<and> args_shared e")
  case True
  with assms(2) obtain cur where cur: "proc_args_sessions st = Some cur" by auto
  let ?arg = "saved_options cur u"
  obtain s1 where s1: "createVncWindow e u ?arg st = Inr s1"
    using createVncWindow_total by blast
  from True cur s1 have "restore_session e saved u st = Inr s1"
    by (simp add: restore_session_def)
  moreover from s1 True have "proc_args_sessions s1 \<noteq> None"
    by (auto simp: createVncWindow_eq Let_def proc_args_create_session)
  ultimately show ?thesis
    using True createVncWindow_result [OF s1] by auto
next
  case False
  then have eq: "restore_session e saved u st = createVncWindow e u (Some obj) st"
    using assms by (intro restore_session_eq) auto
  obtain s1 where s1: "createVncWindow e u (Some obj) st = Inr s1"
    using createVncWindow_total by blast
  have "args_shared e \<longrightarrow> proc_args_sessions s1 = Some saved"
    using False assms(2) createVncWindow_args(1) [OF s1] by auto
  with False eq s1 createVncWindow_result [OF s1] show ?thesis
    by (intro exI [of _ s1] exI [of _ obj]) auto
qed

lemma restore_all:
  "\<forall>p \<in> set ps. map_of saved (fst p) = Some (snd p) \<Longrightarrow>
   args_shared e \<longrightarrow>
     (if render_sync e then proc_args_sessions st \<noteq> None else proc_args_sessions st = Some saved) \<Longrightarrow>
   \<exists>st' ps'. run_all (restore_session e saved) (map fst ps) st = Inr st' \<and>
      map fst ps' = map fst ps \<and>
      (\<not> (render_sync e \<and> args_shared e) \<longrightarrow> ps' = ps) \<and>
      windows st' = windows st @ restored_windows e (length (windows st)) (length (rfbs st)) ps' \<and>
      rfbs st' = rfbs st @ restored_rfbs (length (windows st)) ps'"
proof (induction ps arbitrary: st)
  case Nil
  then show ?case by simp
next
  case (Cons p ps)
  from Cons.prems(1) have p: "map_of saved (fst p) = Some (snd p)"
    and ps: "\<forall>q \<in> set ps. map_of saved (fst q) = Some (snd q)" by simp_all
  from restore_session_step [OF p Cons.prems(2)] obtain s1 obj' where
    s1: "restore_session e saved (fst p) st = Inr s1"
    and o: "\<not> (render_sync e \<and> args_shared e) \<longrightarrow> obj' = snd p"
    and w1: "windows s1 = windows st @ [vnc_window e (fst p) obj' (length (windows st)) (length (rfbs st))]"
    and r1: "rfbs s1 = rfbs st @ [vnc_rfb (fst p) obj' (length (windows st))]"
    and a1: "args_shared e \<longrightarrow>
              (if render_sync e then proc_args_sessions s1 \<noteq> None
               else proc_args_sessions s1 = Some saved)"
    by blast
  from Cons.IH [OF ps a1] obtain st' ps' where
    run: "run_all (restore_session e saved) (map fst ps) s1 = Inr st'"
    and k: "map fst ps' = map fst ps"
    and same: "\<not> (render_sync e \<and> args_shared e) \<longrightarrow> ps' = ps"
    and w: "windows st' = windows s1 @ restored_windows e (length (windows s1)) (length (rfbs s1)) ps'"
    and r: "rfbs st' = rfbs s1 @ restored_rfbs (length (windows s1)) ps'"
    by blast
  show ?case
  proof (intro exI [of _ st'] exI [of _ "(fst p, obj') # ps'"] conjI)
    show "run_all (restore_session e saved) (map fst (p # ps)) st = Inr st'"
      using s1 run by simp
    show "map fst ((fst p, obj') # ps') = map fst (p # ps)"
      using k by simp
    show "\<not> (render_sync e \<and> args_shared e) \<longrightarrow> (fst p, obj') # ps' = p # ps"
      using o same by (cases p) auto
    show "windows st' = windows st @
            restored_windows e (length (windows st)) (length (rfbs st)) ((fst p, obj') # ps')"
      using w w1 r1 by simp
    show "rfbs st' = rfbs st @ restored_rfbs (length (windows st)) ((fst p, obj') # ps')"
      using r w1 r1 by simp
  qed
qed

lemma Object_entries_lookup:
  assumes "distinct (map fst obj)"
  shows "\<forall>p \<in> set (Object_entries obj). map_of obj (fst p) = Some (snd p)"
  using assms by (auto simp: set_Object_entries)

lemma register_restores:
  assumes "distinct (map fst saved)"
  shows "\<exists>st' ps. register e (Some saved) = Inr st' \<and>
           map fst ps = Object_keys saved \<and>
           (\<not> (render_sync e \<and> args_shared e) \<longrightarrow> ps = Object_entries saved) \<and>
           windows st' = restored_windows e 0 0 ps \<and>
           rfbs st' = restored_rfbs 0 ps"
  using restore_all [OF Object_entries_lookup [OF assms], of e "initial e (Some saved)"]
  by (simp add: register_def Object_keys_def initial_def)

lemma register_dialog:
  "\<exists>st'. register e None = Inr st' \<and>
      windows st' =
        [\<lparr>icon = logo e, title = mainTitle e, dimension = (400, 300),
          position = Some ''center'', sessionable = Some False, listeners = [],
          destroyed = False,
          dialog = Some \<lparr>state_url = ''ws://10.0.0.74:6080'', state_username = [],
                          state_password = ''abc123''\<rparr>\<rparr>] \<and>
      rfbs st' = []"
  by (simp add: register_def createConnectionWindow_eq initial_def)

lemma persisted_create_destroy:
  assumes "sessions_ok st"
  shows "\<exists>m. proc_args_sessions (on_vnc_create_session st u w opts) = Some m \<and>
             (\<forall>k. map_of m k = map_option options (map_of (sessions (on_vnc_create_session st u w opts)) k))"
    and "\<exists>m. proc_args_sessions (on_vnc_destroy_session st u w) = Some m \<and>
             (\<forall>k. map_of m k = map_option options (map_of (sessions (on_vnc_destroy_session st u w)) k))"
proof -
  let ?c = "st\<lparr>sessions := js_set u \<lparr>win = w, options = opts, capabilities = []\<rparr> (sessions st),
           sessions_proto :=
             (sessions_proto st \<or> (u = ''__proto__'' \<and> map_of (sessions st) u = None))\<rparr>"
  let ?d = "st\<lparr>sessions := js_delete u (sessions st)\<rparr>"
  have "sessions_ok ?c"
    using sessions_ok_create [OF assms, of u w opts]
    by (simp add: sessions_ok_def on_vnc_create_session_def)
  from persisted_sessions [OF this]
  show "\<exists>m. proc_args_sessions (on_vnc_create_session st u w opts) = Some m \<and>
             (\<forall>k. map_of m k = map_option options (map_of (sessions (on_vnc_create_session st u w opts)) k))"
    by (simp add: on_vnc_create_session_def)
  have "sessions_ok ?d"
    using sessions_ok_destroy [OF assms, of u w]
    by (simp add: sessions_ok_def on_vnc_destroy_session_def)
  from persisted_sessions [OF this]
  show "\<exists>m. proc_args_sessions (on_vnc_destroy_session st u w) = Some m \<and>
             (\<forall>k. map_of m k = map_option options (map_of (sessions (on_vnc_destroy_session st u w)) k))"
    by (simp add: on_vnc_destroy_session_def)
qed

text \<open>
  On a host that emits \<^verbatim>\<open>render\<close> at once and shares \<^verbatim>\<open>args\<close>, the first
  \<^verbatim>\<open>vnc:create-session\<close> replaces \<^verbatim>\<open>args.sessions\<close> while the \<^verbatim>\<open>forEach\<close> is still running,
  and the second saved session is restored with empty options.
\<close>

lemma register_sync_shared:
  "case register (env0\<lparr>render_sync := True\<rparr>)
          (Some [(''ws://a'', [(''x'', JNum 1)]), (''ws://b'', [(''y'', JNum 2)])]) of
     Inl err \<Rightarrow> False
   | Inr st' \<Rightarrow>
       map (\<lambda>c. (rfb_url c, rfb_options c)) (rfbs st') =
         [(''ws://a'', [(''shared'', JBool True), (''x'', JNum 1)]),
          (''ws://b'', [(''shared'', JBool True)])] \<and>
       map (\<lambda>p. (fst p, options (snd p))) (sessions st') =
         [(''ws://a'', [(''x'', JNum 1)]), (''ws://b'', [])]"
  by code_simp

section \<open>The menu, fresh sessions, forwarding and disconnecting\<close>

lemma session_submenu_eq:
  "session_submenu (u, s) =
     Entry u None None
       (Some [Entry ''Disconnect'' None (Some (Click_win_emit (win s) ''vnc:disconnect'')) None,
              Entry ''Send Ctrl+Alt+Del'' (Some (\<not> truthy (js_get (capabilities s) ''power'')))
                (Some (Click_win_emit (win s) ''vnc:cad'')) None,
              Entry ''Send shutdown signal'' (Some (\<not> truthy (js_get (capabilities s) ''power'')))
                (Some (Click_win_emit (win s) ''vnc:shutdown'')) None,
              Entry ''Send reboot signal'' (Some (\<not> truthy (js_get (capabilities s) ''power'')))
                (Some (Click_win_emit (win s) ''vnc:reboot'')) None,
              Entry ''Send reset signal'' (Some (\<not> truthy (js_get (capabilities s) ''power'')))
                (Some (Click_win_emit (win s) ''vnc:reset'')) None])"
  by (simp add: session_submenu_def power_item_def)

lemma falsy_values:
  "(\<not> truthy v) = (v \<in> {JUndefined, JNull, JBool False, JNum 0, JStr []})"
  by (cases v) auto

lemma Object_keys_Nil: "Object_keys obj = [] \<longleftrightarrow> obj = []"
  using set_Object_keys [of obj] by (metis image_is_empty set_empty)



lemma reachable_wired:
  assumes "reachable e st" and "r < length (rfbs st)"
  shows "rfb_target (rfbs st ! r) < length (windows st)"
    and "rfb_listeners (rfbs st ! r) =
          vncWindow_rfb_listeners (rfb_url (rfbs st ! r)) (rfb_target (rfbs st ! r))"
    and "\<not> destroyed (windows st ! rfb_target (rfbs st ! r)) \<Longrightarrow>
         \<exists>opts. listeners (windows st ! rfb_target (rfbs st ! r)) =
           vncWindow_win_listeners (rfb_url (rfbs st ! r)) opts (rfb_target (rfbs st ! r)) r"
  using reachable_inv [OF assms(1)] assms(2) by (simp_all add: app_inv_def rfbs_wired_def)

lemma forwarding:
  assumes "w < length (windows st)" and "listeners (windows st ! w) = vncWindow_win_listeners u opts w r"
  shows "win_emit w ''keydown'' (JObj ev # args) st =
           Inr (st\<lparr>calls := calls st @ [Rfb_sendKey r 0 (js_get ev ''code'') True]\<rparr>)"
    and "win_emit w ''keyup'' (JObj ev # args) st =
           Inr (st\<lparr>calls := calls st @ [Rfb_sendKey r 0 (js_get ev ''code'') False]\<rparr>)"
    and "win_emit w ''focus'' args st = Inr (st\<lparr>calls := calls st @ [Rfb_focus r]\<rparr>)"
    and "win_emit w ''blur'' args st = Inr (st\<lparr>calls := calls st @ [Rfb_blur r]\<rparr>)"
    and "win_emit w ''resize'' args st = Inr (st\<lparr>calls := calls st @ [Rfb_windowResize r]\<rparr>)"
  using assms by (simp_all add: win_emit_def sendKey_def arg0_def add_call_def)

lemma listeners_for_rfb_disconnect [simp]:
  "listeners_for ''disconnect'' (vncWindow_rfb_listeners u w) = [On_disconnect u w]"
  by (simp add: listeners_for_def vncWindow_rfb_listeners_def)

lemma keys_persist_fold:
  "fst ` set (fold (\<lambda>p result. Object_assign [(fst p, options (snd p))] result) ps acc)
     \<subseteq> fst ` set ps \<union> fst ` set acc"
proof (induction ps arbitrary: acc)
  case Nil
  then show ?case by simp
next
  case (Cons p ps)
  have "fst ` set (fold (\<lambda>p result. Object_assign [(fst p, options (snd p))] result) ps
                    (Object_assign [(fst p, options (snd p))] acc))
          \<subseteq> fst ` set ps \<union> fst ` set (Object_assign [(fst p, options (snd p))] acc)"
    by (rule Cons.IH)
  also have "\<dots> \<subseteq> fst ` set ps \<union> (fst ` set acc \<union> {fst p})"
    using keys_Object_assign [of "[(fst p, options (snd p))]" acc] by auto
  finally show ?case by auto
qed

lemma keys_persisted:
  "proc_args_sessions (updateApplicationSession st) = Some m \<Longrightarrow>
   set (Object_keys m) \<subseteq> set (Object_keys (sessions st))"
  using keys_persist_fold [of "Object_entries (sessions st)" "[]"]
  by (auto simp: updateApplicationSession_def set_Object_keys set_Object_entries)

lemma destroy_session_forgets:
  "u \<notin> set (Object_keys (sessions (on_vnc_destroy_session st u w))) \<and>
   (\<exists>m. proc_args_sessions (on_vnc_destroy_session st u w) = Some m \<and> u \<notin> set (Object_keys m))"
proof -
  let ?d = "st\<lparr>sessions := js_delete u (sessions st)\<rparr>"
  have a: "u \<notin> set (Object_keys (sessions ?d))"
    by (simp add: set_Object_keys js_delete_def delete_notin_dom)
  obtain m where m: "proc_args_sessions (updateApplicationSession ?d) = Some m"
    by (simp add: updateApplicationSession_def)
  from keys_persisted [OF m] a have "u \<notin> set (Object_keys m)" by auto
  with a m show ?thesis by (simp add: on_vnc_destroy_session_def)
qed

lemma disconnect_eq:
  assumes "r < length (rfbs st)" and "rfb_listeners (rfbs st ! r) = vncWindow_rfb_listeners u w"
    and "w < length (windows st)" and "listeners (windows st ! w) = vncWindow_win_listeners u opts w r'"
    and "\<not> destroyed (windows st ! w)"
  shows "rfb_dispatchEvent e r Ev_disconnect st =
           Inr (win_off_all w
                  (on_vnc_destroy_session
                     (st\<lparr>calls := calls st @ [Make_notification (logo e) (mainTitle e) (''Disconnected from '' @ u)],
                         windows := (windows st)[w := (windows st ! w)\<lparr>destroyed := True\<rparr>]\<rparr>) u w))"
  using assms
  by (simp add: rfb_dispatchEvent_def rfb_listener_body_def createNotification_def add_call_def
      win_destroy_def win_emit_def)

lemma step_windows_mono: "step e st st' \<Longrightarrow> length (windows st) \<le> length (windows st')"
proof (induction rule: step.induct)
  case (step_task st st')
  from evolves_length [OF evolves_run_task [OF this]] show ?case by simp
next
  case (step_win_emit w name args st st')
  from evolves_length [OF evolves_win_emit [OF this]] show ?case by simp
next
  case (step_win_close w st st')
  from evolves_length [OF evolves_win_close [OF this]] show ?case by simp
next
  case (step_win_destroy w st st')
  from evolves_length [OF evolves_win_destroy [OF this]] show ?case by simp
next
  case (step_rfb_event r ev st st')
  from evolves_length [OF evolves_rfb_dispatchEvent [OF this]] show ?case by simp
next
  case (step_setState st w a)
  then show ?case using evolves_length [OF evolves_setState] by simp
next
  case (step_connect w st st')
  show ?case
  proof (cases "dialog (windows st ! w)")
    case None
    with step_connect show ?thesis by (simp add: action_connect_def)
  next
    case (Some d)
    with step_connect obtain s1 where c: "win_close w st = Inr s1"
      and v: "createVncWindow e (state_url d)
               (Some [(''credentials'',
                       JObj [(''username'', JStr (state_username d)),
                             (''password'', JStr (state_password d))])]) s1 = Inr st'"
      by (auto simp: action_connect_def action_close_def split: sum.splits)
    from evolves_length [OF evolves_win_close [OF c]] createVncWindow_result(1) [OF v]
    show ?thesis by simp
  qed
next
  case (step_tray st ev)
  then show ?case using evolves_length [OF evolves_tray] by simp
next
  case (step_dialog st st')
  then show ?case by (auto simp: createConnectionWindow_eq)
next
  case (step_proc_destroy st st')
  from evolves_length [OF evolves_proc_emit [OF this]] show ?case by simp
qed

lemma steps_windows_mono: "(step e)\<^sup>*\<^sup>* st st' \<Longrightarrow> length (windows st) \<le> length (windows st')"
  by (induction rule: rtranclp_induct) (auto dest: step_windows_mono)

lemma win_off_all_bare:
  assumes "listeners (windows st ! w) = []"
  shows "win_off_all w st = st"
proof -
  have "(windows st ! w)\<lparr>listeners := []\<rparr> = windows st ! w"
    unfolding assms [symmetric] by simp
  then show ?thesis by (simp add: win_off_all_def)
qed

lemma win_close_bare:
  assumes "w < length (windows st)" and "listeners (windows st ! w) = []"
    and "\<not> destroyed (windows st ! w)"
  shows "win_close w st =
           Inr (st\<lparr>calls := calls st @ [Win_close w],
                   windows := (windows st)[w := (windows st ! w)\<lparr>destroyed := True\<rparr>]\<rparr>)"
  using assms by (simp add: win_close_def win_emit_def win_destroy_def add_call_def win_off_all_bare)

lemma credentials_merged:
  "Object_assign [(''shared'', JBool True)] [(''credentials'', c)] =
     [(''shared'', JBool True), (''credentials'', c)]"
  by (simp add: Object_assign_def Object_entries_def is_array_index_def is_digit_def js_set_def)

section \<open>The claims\<close>

text \<open>
  C1 (as amended). In every reachable state the session store is a mapping: no URL is
  tracked twice, so each tracked URL has exactly one record of window, options and
  capabilities. For every URL other than \<^verbatim>\<open>__proto__\<close> the handler of
  \<^verbatim>\<open>vnc:create-session\<close> sets the entry of that URL to the record of the given window and
  options with empty capabilities, inserting or overwriting it and leaving the other
  entries as they are; the handler of \<^verbatim>\<open>vnc:destroy-session\<close> removes the entry of its URL
  and nothing else.
\<close>

theorem session_store_is_mapping:
  assumes "reachable e st"
  shows "distinct (Object_keys (sessions st)) \<and>
         (u \<noteq> ''__proto__'' \<longrightarrow>
            map_of (sessions (on_vnc_create_session st u w opts)) =
              (map_of (sessions st))(u \<mapsto> \<lparr>win = w, options = opts, capabilities = []\<rparr>)) \<and>
         map_of (sessions (on_vnc_destroy_session st u w)) = (map_of (sessions st))(u := None)"
proof -
  from assms have "sessions_ok st" by (rule reachable_sessions_ok)
  then have "distinct (Object_keys (sessions st))"
    by (simp add: sessions_ok_def Object_keys_def distinct_Object_entries)
  moreover have "u \<noteq> ''__proto__'' \<longrightarrow>
      map_of (sessions (on_vnc_create_session st u w opts)) =
        (map_of (sessions st))(u \<mapsto> \<lparr>win = w, options = opts, capabilities = []\<rparr>)"
    by (simp add: on_vnc_create_session_def map_of_js_set)
  moreover have "map_of (sessions (on_vnc_destroy_session st u w)) = (map_of (sessions st))(u := None)"
    by (simp add: on_vnc_destroy_session_def js_delete_def delete_conv')
  ultimately show ?thesis by simp
qed

text \<open>
  The theorem at the example session: a second URL is inserted, the tracked one is deleted.
\<close>

theorem session_store_is_mapping_witness:
  "reachable env0 example_session \<and>
   distinct (Object_keys (sessions example_session)) \<and>
   ''ws://b'' \<noteq> ''__proto__'' \<and>
   map_of (sessions (on_vnc_create_session example_session ''ws://b'' 2 [])) =
     (map_of (sessions example_session))(''ws://b'' \<mapsto> \<lparr>win = 2, options = [], capabilities = []\<rparr>) \<and>
   map_of (sessions (on_vnc_destroy_session example_session ''ws://10.0.0.74:6080'' 1)) =
     (map_of (sessions example_session))(''ws://10.0.0.74:6080'' := None)"
  using session_store_is_mapping [OF reachable_example_session, where u = "''ws://b''" and w = 2 and opts = "[]"]
    session_store_is_mapping [OF reachable_example_session, where u = "''ws://10.0.0.74:6080''" and w = 1]
    reachable_example_session
  by simp

text \<open>
  C1 as stated fails for the URL \<^verbatim>\<open>__proto__\<close>: the window of the last example run is
  rendered, its \<^verbatim>\<open>render\<close> listener has called the handler of \<^verbatim>\<open>vnc:create-session\<close> with
  that URL, and the store has no entry.
\<close>

theorem create_session_proto_counterexample:
  "rfb_url (rfbs example_proto ! 0) = ''__proto__'' \<and>
   listeners_for ''render'' (listeners (windows example_proto ! 1)) =
     [On_render ''__proto__'' 1
        [(''credentials'', JObj [(''username'', JStr []), (''password'', JStr ''abc123'')])]] \<and>
   pending example_proto = [] \<and>
   Object_keys (sessions example_proto) = [] \<and>
   map_of (sessions example_proto) ''__proto__'' = None \<and>
   map_of (sessions (on_vnc_create_session example_dialog ''__proto__'' 1 [])) ''__proto__'' = None"
  by code_simp

text \<open>
  C2. In every reachable state, every window that is neither a dialog nor destroyed is the
  target of an RFB client \<open>r\<close>, and the events the host emits on that window are forwarded
  to it: \<^verbatim>\<open>keydown\<close> with an event object calls \<^verbatim>\<open>rfb.sendKey(0, ev.code, true)\<close>, \<^verbatim>\<open>keyup\<close>
  calls \<^verbatim>\<open>rfb.sendKey(0, ev.code, false)\<close>, \<^verbatim>\<open>focus\<close> calls \<^verbatim>\<open>rfb.focus()\<close>, \<^verbatim>\<open>blur\<close> calls
  \<^verbatim>\<open>rfb.blur()\<close> and \<^verbatim>\<open>resize\<close> calls \<^verbatim>\<open>rfb._windowResize()\<close>; each event appends exactly
  that one call to the calls made so far and changes nothing else.
\<close>

theorem window_events_forwarded:
  assumes "reachable e st" and "w < length (windows st)" and "dialog (windows st ! w) = None"
    and "\<not> destroyed (windows st ! w)"
  shows "\<exists>r < length (rfbs st).
           rfb_target (rfbs st ! r) = w \<and>
           (\<forall>ev args. win_emit w ''keydown'' (JObj ev # args) st =
              Inr (st\<lparr>calls := calls st @ [Rfb_sendKey r 0 (js_get ev ''code'') True]\<rparr>)) \<and>
           (\<forall>ev args. win_emit w ''keyup'' (JObj ev # args) st =
              Inr (st\<lparr>calls := calls st @ [Rfb_sendKey r 0 (js_get ev ''code'') False]\<rparr>)) \<and>
           (\<forall>args. win_emit w ''focus'' args st = Inr (st\<lparr>calls := calls st @ [Rfb_focus r]\<rparr>)) \<and>
           (\<forall>args. win_emit w ''blur'' args st = Inr (st\<lparr>calls := calls st @ [Rfb_blur r]\<rparr>)) \<and>
           (\<forall>args. win_emit w ''resize'' args st =
              Inr (st\<lparr>calls := calls st @ [Rfb_windowResize r]\<rparr>))"
proof -
  from reachable_inv [OF assms(1)] assms(2,3)
  obtain r where r: "r < length (rfbs st)" and t: "rfb_target (rfbs st ! r) = w"
    by (auto simp: app_inv_def windows_have_rfb_def)
  from assms(4) t have "\<not> destroyed (windows st ! rfb_target (rfbs st ! r))" by simp
  from reachable_wired(3) [OF assms(1) r this] t
  obtain opts where l: "listeners (windows st ! w) = vncWindow_win_listeners (rfb_url (rfbs st ! r)) opts w r"
    by auto
  from r t forwarding [OF assms(2) l] show ?thesis by blast
qed

text \<open>
  The theorem at the window of the example session, with the calls of the program before
  and after a key is pressed.
\<close>

theorem window_events_forwarded_witness:
  "reachable env0 example_session \<and> 1 < length (windows example_session) \<and>
   dialog (windows example_session ! 1) = None \<and>
   \<not> destroyed (windows example_session ! 1) \<and>
   calls example_session =
     [Make_tray ''logo.png'', Proc_createWindow 0, Win_close 0, Proc_createWindow 1, New_RFB 0,
      Rfb_windowResize 0] \<and>
   (\<exists>r < length (rfbs example_session).
      rfb_target (rfbs example_session ! r) = 1 \<and>
      win_emit 1 ''keydown'' [JObj [(''code'', JStr ''KeyA'')]] example_session =
        Inr (example_session\<lparr>calls :=
          [Make_tray ''logo.png'', Proc_createWindow 0, Win_close 0, Proc_createWindow 1, New_RFB 0,
           Rfb_windowResize 0, Rfb_sendKey r 0 (JStr ''KeyA'') True]\<rparr>) \<and>
      win_emit 1 ''keyup'' [JObj [(''code'', JStr ''KeyA'')]] example_session =
        Inr (example_session\<lparr>calls :=
          [Make_tray ''logo.png'', Proc_createWindow 0, Win_close 0, Proc_createWindow 1, New_RFB 0,
           Rfb_windowResize 0, Rfb_sendKey r 0 (JStr ''KeyA'') False]\<rparr>) \<and>
      win_emit 1 ''focus'' [] example_session =
        Inr (example_session\<lparr>calls := calls example_session @ [Rfb_focus r]\<rparr>) \<and>
      win_emit 1 ''blur'' [] example_session =
        Inr (example_session\<lparr>calls := calls example_session @ [Rfb_blur r]\<rparr>) \<and>
      win_emit 1 ''resize'' [] example_session =
        Inr (example_session\<lparr>calls := calls example_session @ [Rfb_windowResize r]\<rparr>))"
proof -
  have a: "1 < length (windows example_session)" and b: "dialog (windows example_session ! 1) = None"
    and c: "\<not> destroyed (windows example_session ! 1)"
    and d: "calls example_session =
     [Make_tray ''logo.png'', Proc_createWindow 0, Win_close 0, Proc_createWindow 1, New_RFB 0,
      Rfb_windowResize 0]"
    by code_simp+
  from window_events_forwarded [OF reachable_example_session a b c]
  obtain r where "r < length (rfbs example_session)" and "rfb_target (rfbs example_session ! r) = 1"
    and "\<forall>ev args. win_emit 1 ''keydown'' (JObj ev # args) example_session =
              Inr (example_session\<lparr>calls := calls example_session @ [Rfb_sendKey r 0 (js_get ev ''code'') True]\<rparr>)"
    and "\<forall>ev args. win_emit 1 ''keyup'' (JObj ev # args) example_session =
              Inr (example_session\<lparr>calls := calls example_session @ [Rfb_sendKey r 0 (js_get ev ''code'') False]\<rparr>)"
    and "\<forall>args. win_emit 1 ''focus'' args example_session =
              Inr (example_session\<lparr>calls := calls example_session @ [Rfb_focus r]\<rparr>)"
    and "\<forall>args. win_emit 1 ''blur'' args example_session =
              Inr (example_session\<lparr>calls := calls example_session @ [Rfb_blur r]\<rparr>)"
    and "\<forall>args. win_emit 1 ''resize'' args example_session =
              Inr (example_session\<lparr>calls := calls example_session @ [Rfb_windowResize r]\<rparr>)"
    by blast
  then have "r < length (rfbs example_session) \<and>
      rfb_target (rfbs example_session ! r) = 1 \<and>
      win_emit 1 ''keydown'' [JObj [(''code'', JStr ''KeyA'')]] example_session =
        Inr (example_session\<lparr>calls :=
          [Make_tray ''logo.png'', Proc_createWindow 0, Win_close 0, Proc_createWindow 1, New_RFB 0,
           Rfb_windowResize 0, Rfb_sendKey r 0 (JStr ''KeyA'') True]\<rparr>) \<and>
      win_emit 1 ''keyup'' [JObj [(''code'', JStr ''KeyA'')]] example_session =
        Inr (example_session\<lparr>calls :=
          [Make_tray ''logo.png'', Proc_createWindow 0, Win_close 0, Proc_createWindow 1, New_RFB 0,
           Rfb_windowResize 0, Rfb_sendKey r 0 (JStr ''KeyA'') False]\<rparr>) \<and>
      win_emit 1 ''focus'' [] example_session =
        Inr (example_session\<lparr>calls := calls example_session @ [Rfb_focus r]\<rparr>) \<and>
      win_emit 1 ''blur'' [] example_session =
        Inr (example_session\<lparr>calls := calls example_session @ [Rfb_blur r]\<rparr>) \<and>
      win_emit 1 ''resize'' [] example_session =
        Inr (example_session\<lparr>calls := calls example_session @ [Rfb_windowResize r]\<rparr>)"
    by (simp add: js_get_def d)
  with reachable_example_session a b c d show ?thesis by blast
qed

text \<open>
  C3. A click on the tray icon hands the host's context menu the click event as position
  and a menu of three entries: Create VNC connection, Sessions and Quit. The entry Sessions
  is disabled exactly when no session is tracked, and its items are one submenu per tracked
  URL, labelled with the URL, in the order of \<^verbatim>\<open>Object.keys\<close>. The submenu of a tracked
  session holds a Disconnect item and then exactly the four power items Send Ctrl+Alt+Del,
  Send shutdown signal, Send reboot signal and Send reset signal, each disabled exactly
  when \<^verbatim>\<open>capabilities.power\<close> of that session is falsy, that is \<^verbatim>\<open>undefined\<close>, \<^verbatim>\<open>null\<close>,
  \<^verbatim>\<open>false\<close>, zero or the empty string.
\<close>

theorem tray_menu_sessions:
  "\<exists>menu.
     tray_onclick st ev =
       st\<lparr>calls := calls st @
            [Make_contextmenu ev
               [Entry ''Create VNC connection'' None (Some Click_createConnectionWindow) None,
                Entry ''Sessions'' (Some (sessions st = [])) None (Some menu),
                Entry ''Quit'' None (Some Click_proc_destroy) None]]\<rparr> \<and>
     map label menu = Object_keys (sessions st) \<and>
     (\<forall>u s. map_of (sessions st) u = Some s \<longrightarrow>
        (let off = js_get (capabilities s) ''power'' \<in> {JUndefined, JNull, JBool False, JNum 0, JStr []}
         in Entry u None None
              (Some [Entry ''Disconnect'' None (Some (Click_win_emit (win s) ''vnc:disconnect'')) None,
                     Entry ''Send Ctrl+Alt+Del'' (Some off) (Some (Click_win_emit (win s) ''vnc:cad'')) None,
                     Entry ''Send shutdown signal'' (Some off) (Some (Click_win_emit (win s) ''vnc:shutdown'')) None,
                     Entry ''Send reboot signal'' (Some off) (Some (Click_win_emit (win s) ''vnc:reboot'')) None,
                     Entry ''Send reset signal'' (Some off) (Some (Click_win_emit (win s) ''vnc:reset'')) None])
            \<in> set menu))"
proof -
  have "tray_onclick st ev =
       st\<lparr>calls := calls st @
            [Make_contextmenu ev
               [Entry ''Create VNC connection'' None (Some Click_createConnectionWindow) None,
                Entry ''Sessions'' (Some (sessions st = [])) None (Some (getSessionMenu st)),
                Entry ''Quit'' None (Some Click_proc_destroy) None]]\<rparr>"
    by (simp add: tray_onclick_def add_call_def tray_menu_def Object_keys_Nil)
  moreover have "map label (getSessionMenu st) = Object_keys (sessions st)"
    by (simp add: getSessionMenu_def Object_keys_def session_submenu_def)
  moreover have "session_submenu (u, s) \<in> set (getSessionMenu st)"
    if "map_of (sessions st) u = Some s" for u s
    using map_of_SomeD [OF that] by (simp add: getSessionMenu_def set_Object_entries)
  ultimately show ?thesis
    by (intro exI [of _ "getSessionMenu st"]) (simp add: session_submenu_eq falsy_values Let_def)
qed

text \<open>
  The theorem at the example session, first after its server has announced power control,
  where the four items are enabled, and then before, where its capabilities are still empty.
\<close>

theorem tray_menu_sessions_witness:
  "map_of (sessions example_capable) ''ws://10.0.0.74:6080'' =
     Some \<lparr>win = 1,
           options = [(''credentials'', JObj [(''username'', JStr []), (''password'', JStr ''abc123'')])],
           capabilities = [(''power'', JBool True)]\<rparr> \<and>
   tray_onclick example_capable (JObj [(''clientX'', JNum 10), (''clientY'', JNum 20)]) =
     example_capable\<lparr>calls := calls example_capable @
       [Make_contextmenu (JObj [(''clientX'', JNum 10), (''clientY'', JNum 20)])
          [Entry ''Create VNC connection'' None (Some Click_createConnectionWindow) None,
           Entry ''Sessions'' (Some False) None
             (Some [Entry ''ws://10.0.0.74:6080'' None None
                (Some [Entry ''Disconnect'' None (Some (Click_win_emit 1 ''vnc:disconnect'')) None,
                       Entry ''Send Ctrl+Alt+Del'' (Some False) (Some (Click_win_emit 1 ''vnc:cad'')) None,
                       Entry ''Send shutdown signal'' (Some False) (Some (Click_win_emit 1 ''vnc:shutdown'')) None,
                       Entry ''Send reboot signal'' (Some False) (Some (Click_win_emit 1 ''vnc:reboot'')) None,
                       Entry ''Send reset signal'' (Some False) (Some (Click_win_emit 1 ''vnc:reset'')) None])]),
           Entry ''Quit'' None (Some Click_proc_destroy) None]]\<rparr> \<and>
   map_of (sessions example_session) ''ws://10.0.0.74:6080'' =
     Some \<lparr>win = 1,
           options = [(''credentials'', JObj [(''username'', JStr []), (''password'', JStr ''abc123'')])],
           capabilities = []\<rparr> \<and>
   tray_onclick example_session JNull =
     example_session\<lparr>calls := calls example_session @
       [Make_contextmenu JNull
          [Entry ''Create VNC connection'' None (Some Click_createConnectionWindow) None,
           Entry ''Sessions'' (Some False) None
             (Some [Entry ''ws://10.0.0.74:6080'' None None
                (Some [Entry ''Disconnect'' None (Some (Click_win_emit 1 ''vnc:disconnect'')) None,
                       Entry ''Send Ctrl+Alt+Del'' (Some True) (Some (Click_win_emit 1 ''vnc:cad'')) None,
                       Entry ''Send shutdown signal'' (Some True) (Some (Click_win_emit 1 ''vnc:shutdown'')) None,
                       Entry ''Send reboot signal'' (Some True) (Some (Click_win_emit 1 ''vnc:reboot'')) None,
                       Entry ''Send reset signal'' (Some True) (Some (Click_win_emit 1 ''vnc:reset'')) None])]),
           Entry ''Quit'' None (Some Click_proc_destroy) None]]\<rparr> \<and>
   sessions example_dialog = [] \<and>
   tray_onclick example_dialog JNull =
     example_dialog\<lparr>calls := calls example_dialog @
       [Make_contextmenu JNull
          [Entry ''Create VNC connection'' None (Some Click_createConnectionWindow) None,
           Entry ''Sessions'' (Some True) None (Some []),
           Entry ''Quit'' None (Some Click_proc_destroy) None]]\<rparr>"
proof -
  let ?u = "''ws://10.0.0.74:6080''"
  let ?o = "[(''credentials'', JObj [(''username'', JStr []), (''password'', JStr ''abc123'')])]"
  let ?sub = "\<lambda>off. Entry ?u None None
                (Some [Entry ''Disconnect'' None (Some (Click_win_emit 1 ''vnc:disconnect'')) None,
                       Entry ''Send Ctrl+Alt+Del'' (Some off) (Some (Click_win_emit 1 ''vnc:cad'')) None,
                       Entry ''Send shutdown signal'' (Some off) (Some (Click_win_emit 1 ''vnc:shutdown'')) None,
                       Entry ''Send reboot signal'' (Some off) (Some (Click_win_emit 1 ''vnc:reboot'')) None,
                       Entry ''Send reset signal'' (Some off) (Some (Click_win_emit 1 ''vnc:reset'')) None])"
  let ?ev = "JObj [(''clientX'', JNum 10), (''clientY'', JNum 20)]"
  have a1: "map_of (sessions example_capable) ?u =
              Some \<lparr>win = 1, options = ?o, capabilities = [(''power'', JBool True)]\<rparr>"
    and k1: "Object_keys (sessions example_capable) = [?u]"
    and n1: "sessions example_capable \<noteq> []"
    and a2: "map_of (sessions example_session) ?u = Some \<lparr>win = 1, options = ?o, capabilities = []\<rparr>"
    and k2: "Object_keys (sessions example_session) = [?u]"
    and n2: "sessions example_session \<noteq> []"
    and e3: "sessions example_dialog = []"
    and k3: "Object_keys (sessions example_dialog) = []"
    by code_simp+
  from tray_menu_sessions [of example_capable ?ev] obtain m1 where
    t1: "tray_onclick example_capable ?ev =
       example_capable\<lparr>calls := calls example_capable @
            [Make_contextmenu ?ev
               [Entry ''Create VNC connection'' None (Some Click_createConnectionWindow) None,
                Entry ''Sessions'' (Some (sessions example_capable = [])) None (Some m1),
                Entry ''Quit'' None (Some Click_proc_destroy) None]]\<rparr>"
    and l1: "map label m1 = Object_keys (sessions example_capable)"
    and s1: "\<forall>u s. map_of (sessions example_capable) u = Some s \<longrightarrow>
        (let off = js_get (capabilities s) ''power'' \<in> {JUndefined, JNull, JBool False, JNum 0, JStr []}
         in Entry u None None
              (Some [Entry ''Disconnect'' None (Some (Click_win_emit (win s) ''vnc:disconnect'')) None,
                     Entry ''Send Ctrl+Alt+Del'' (Some off) (Some (Click_win_emit (win s) ''vnc:cad'')) None,
                     Entry ''Send shutdown signal'' (Some off) (Some (Click_win_emit (win s) ''vnc:shutdown'')) None,
                     Entry ''Send reboot signal'' (Some off) (Some (Click_win_emit (win s) ''vnc:reboot'')) None,
                     Entry ''Send reset signal'' (Some off) (Some (Click_win_emit (win s) ''vnc:reset'')) None])
            \<in> set m1)"
    by blast
  from s1 [rule_format, OF a1] have "?sub False \<in> set m1"
    by (simp add: Let_def js_get_def)
  moreover from l1 k1 obtain x where "m1 = [x]" by (cases m1) auto
  ultimately have "m1 = [?sub False]" by simp
  with t1 n1 have 1: "tray_onclick example_capable ?ev =
       example_capable\<lparr>calls := calls example_capable @
            [Make_contextmenu ?ev
               [Entry ''Create VNC connection'' None (Some Click_createConnectionWindow) None,
                Entry ''Sessions'' (Some False) None (Some [?sub False]),
                Entry ''Quit'' None (Some Click_proc_destroy) None]]\<rparr>"
    by simp
  from tray_menu_sessions [of example_session JNull] obtain m2 where
    t2: "tray_onclick example_session JNull =
       example_session\<lparr>calls := calls example_session @
            [Make_contextmenu JNull
               [Entry ''Create VNC connection'' None (Some Click_createConnectionWindow) None,
                Entry ''Sessions'' (Some (sessions example_session = [])) None (Some m2),
                Entry ''Quit'' None (Some Click_proc_destroy) None]]\<rparr>"
    and l2: "map label m2 = Object_keys (sessions example_session)"
    and s2: "\<forall>u s. map_of (sessions example_session) u = Some s \<longrightarrow>
        (let off = js_get (capabilities s) ''power'' \<in> {JUndefined, JNull, JBool False, JNum 0, JStr []}
         in Entry u None None
              (Some [Entry ''Disconnect'' None (Some (Click_win_emit (win s) ''vnc:disconnect'')) None,
                     Entry ''Send Ctrl+Alt+Del'' (Some off) (Some (Click_win_emit (win s) ''vnc:cad'')) None,
                     Entry ''Send shutdown signal'' (Some off) (Some (Click_win_emit (win s) ''vnc:shutdown'')) None,
                     Entry ''Send reboot signal'' (Some off) (Some (Click_win_emit (win s) ''vnc:reboot'')) None,
                     Entry ''Send reset signal'' (Some off) (Some (Click_win_emit (win s) ''vnc:reset'')) None])
            \<in> set m2)"
    by blast
  from s2 [rule_format, OF a2] have "?sub True \<in> set m2"
    by (simp add: Let_def js_get_def)
  moreover from l2 k2 obtain y where "m2 = [y]" by (cases m2) auto
  ultimately have "m2 = [?sub True]" by simp
  with t2 n2 have 2: "tray_onclick example_session JNull =
       example_session\<lparr>calls := calls example_session @
            [Make_contextmenu JNull
               [Entry ''Create VNC connection'' None (Some Click_createConnectionWindow) None,
                Entry ''Sessions'' (Some False) None (Some [?sub True]),
                Entry ''Quit'' None (Some Click_proc_destroy) None]]\<rparr>"
    by simp
  from tray_menu_sessions [of example_dialog JNull] obtain m3 where
    t3: "tray_onclick example_dialog JNull =
       example_dialog\<lparr>calls := calls example_dialog @
            [Make_contextmenu JNull
               [Entry ''Create VNC connection'' None (Some Click_createConnectionWindow) None,
                Entry ''Sessions'' (Some (sessions example_dialog = [])) None (Some m3),
                Entry ''Quit'' None (Some Click_proc_destroy) None]]\<rparr>"
    and l3: "map label m3 = Object_keys (sessions example_dialog)"
    by blast
  from l3 k3 have "m3 = []" by simp
  with t3 e3 have 3: "tray_onclick example_dialog JNull =
       example_dialog\<lparr>calls := calls example_dialog @
            [Make_contextmenu JNull
               [Entry ''Create VNC connection'' None (Some Click_createConnectionWindow) None,
                Entry ''Sessions'' (Some True) None (Some []),
                Entry ''Quit'' None (Some Click_proc_destroy) None]]\<rparr>"
    by simp
  from a1 1 a2 2 e3 3 show ?thesis by (intro conjI)
qed

text \<open>
  C4 (as amended). In every reachable state, when an RFB client whose window is not
  destroyed yet fires \<^verbatim>\<open>disconnect\<close>, the run returns; one notification
  \<^verbatim>\<open>Disconnected from u\<close> for the URL \<open>u\<close> of the client is created; the window is
  destroyed; and, through the window's \<^verbatim>\<open>destroy\<close> listener and the handler of
  \<^verbatim>\<open>vnc:destroy-session\<close>, \<open>u\<close> is afterwards neither a key of the session store nor a key
  of \<^verbatim>\<open>proc.args.sessions\<close>.
\<close>

theorem disconnect_destroys_session:
  assumes "reachable e st" and "r < length (rfbs st)"
    and "\<not> destroyed (windows st ! rfb_target (rfbs st ! r))"
  shows "\<exists>st'. rfb_dispatchEvent e r Ev_disconnect st = Inr st' \<and>
           calls st' = calls st @
             [Make_notification (logo e) (mainTitle e) (''Disconnected from '' @ rfb_url (rfbs st ! r))] \<and>
           destroyed (windows st' ! rfb_target (rfbs st ! r)) \<and>
           rfb_url (rfbs st ! r) \<notin> set (Object_keys (sessions st')) \<and>
           (\<exists>m. proc_args_sessions st' = Some m \<and> rfb_url (rfbs st ! r) \<notin> set (Object_keys m))"
proof -
  let ?u = "rfb_url (rfbs st ! r)" and ?w = "rfb_target (rfbs st ! r)"
  from reachable_wired(1,2) [OF assms(1,2)] reachable_wired(3) [OF assms] obtain opts where
    w: "?w < length (windows st)"
    and rl: "rfb_listeners (rfbs st ! r) = vncWindow_rfb_listeners ?u ?w"
    and wl: "listeners (windows st ! ?w) = vncWindow_win_listeners ?u opts ?w r"
    by auto
  let ?st1 = "st\<lparr>calls := calls st @ [Make_notification (logo e) (mainTitle e) (''Disconnected from '' @ ?u)],
                  windows := (windows st)[?w := (windows st ! ?w)\<lparr>destroyed := True\<rparr>]\<rparr>"
  let ?st2 = "win_off_all ?w (on_vnc_destroy_session ?st1 ?u ?w)"
  have eq: "rfb_dispatchEvent e r Ev_disconnect st = Inr ?st2"
    using assms(2) rl w wl assms(3) by (rule disconnect_eq)
  have "calls ?st2 = calls st @
             [Make_notification (logo e) (mainTitle e) (''Disconnected from '' @ ?u)]"
    and "destroyed (windows ?st2 ! ?w)"
    and "sessions ?st2 = sessions (on_vnc_destroy_session ?st1 ?u ?w)"
    and "proc_args_sessions ?st2 = proc_args_sessions (on_vnc_destroy_session ?st1 ?u ?w)"
    using w by (simp_all add: win_off_all_def on_vnc_destroy_session_def updateApplicationSession_def)
  with eq destroy_session_forgets [of ?u ?st1 ?w] show ?thesis by simp
qed

text \<open>The theorem at the client of the example session, whose URL is tracked before.\<close>

theorem disconnect_destroys_session_witness:
  "reachable env0 example_session \<and> 0 < length (rfbs example_session) \<and>
   rfb_url (rfbs example_session ! 0) = ''ws://10.0.0.74:6080'' \<and>
   rfb_target (rfbs example_session ! 0) = 1 \<and>
   ''ws://10.0.0.74:6080'' \<in> set (Object_keys (sessions example_session)) \<and>
   \<not> destroyed (windows example_session ! rfb_target (rfbs example_session ! 0)) \<and>
   (\<exists>st'. rfb_dispatchEvent env0 0 Ev_disconnect example_session = Inr st' \<and>
      calls st' = calls example_session @
        [Make_notification ''logo.png'' ''VNC'' ''Disconnected from ws://10.0.0.74:6080''] \<and>
      destroyed (windows st' ! 1) \<and>
      ''ws://10.0.0.74:6080'' \<notin> set (Object_keys (sessions st')) \<and>
      (\<exists>m. proc_args_sessions st' = Some m \<and> ''ws://10.0.0.74:6080'' \<notin> set (Object_keys m)))"
proof -
  have a: "0 < length (rfbs example_session)"
    and b: "\<not> destroyed (windows example_session ! rfb_target (rfbs example_session ! 0))"
    and c: "rfb_url (rfbs example_session ! 0) = ''ws://10.0.0.74:6080''"
    and d: "rfb_target (rfbs example_session ! 0) = 1"
    and f: "''ws://10.0.0.74:6080'' \<in> set (Object_keys (sessions example_session))"
    by code_simp+
  from disconnect_destroys_session [OF reachable_example_session a b] reachable_example_session a b c d f
  show ?thesis by (simp add: env0_def)
qed

text \<open>
  C4 as stated fails for a client whose window is destroyed already. The user has closed the
  window of the example session, which does not disconnect its client, and has connected to
  the same URL again, so that the URL is tracked for window 3. When the first client then
  fires \<^verbatim>\<open>disconnect\<close>, the notification is created, \<^verbatim>\<open>win.destroy()\<close> does nothing on the
  destroyed window 1, and the URL remains a key of the session store and of
  \<^verbatim>\<open>proc.args.sessions\<close>.
\<close>

theorem disconnect_closed_window_counterexample:
  "reachable env0 example_reopened \<and>
   rfb_url (rfbs example_reopened ! 0) = ''ws://10.0.0.74:6080'' \<and>
   rfb_target (rfbs example_reopened ! 0) = 1 \<and>
   destroyed (windows example_reopened ! 1) \<and>
   map rfb_url (rfbs example_reopened) = [''ws://10.0.0.74:6080'', ''ws://10.0.0.74:6080''] \<and>
   map (\<lambda>p. (fst p, win (snd p))) (sessions example_reopened) = [(''ws://10.0.0.74:6080'', 3)] \<and>
   rfb_dispatchEvent env0 0 Ev_disconnect example_reopened =
     Inr (example_reopened\<lparr>calls := calls example_reopened @
            [Make_notification ''logo.png'' ''VNC'' ''Disconnected from ws://10.0.0.74:6080'']\<rparr>) \<and>
   Object_keys (sessions example_reopened) = [''ws://10.0.0.74:6080''] \<and>
   map_option Object_keys (proc_args_sessions example_reopened) = Some [''ws://10.0.0.74:6080'']"
proof -
  have "rfb_url (rfbs example_reopened ! 0) = ''ws://10.0.0.74:6080'' \<and>
   rfb_target (rfbs example_reopened ! 0) = 1 \<and>
   destroyed (windows example_reopened ! 1) \<and>
   map rfb_url (rfbs example_reopened) = [''ws://10.0.0.74:6080'', ''ws://10.0.0.74:6080''] \<and>
   map (\<lambda>p. (fst p, win (snd p))) (sessions example_reopened) = [(''ws://10.0.0.74:6080'', 3)] \<and>
   rfb_dispatchEvent env0 0 Ev_disconnect example_reopened =
     Inr (example_reopened\<lparr>calls := calls example_reopened @
            [Make_notification ''logo.png'' ''VNC'' ''Disconnected from ws://10.0.0.74:6080'']\<rparr>) \<and>
   Object_keys (sessions example_reopened) = [''ws://10.0.0.74:6080''] \<and>
   map_option Object_keys (proc_args_sessions example_reopened) = Some [''ws://10.0.0.74:6080'']"
    by code_simp
  with reachable_example_reopened show ?thesis by (rule conjI)
qed

text \<open>
  C5. After the handler of \<^verbatim>\<open>vnc:create-session\<close> or of \<^verbatim>\<open>vnc:destroy-session\<close> has run in
  a reachable state, \<^verbatim>\<open>proc.args.sessions\<close> is an object that maps exactly the tracked URLs,
  each to the connect options of its session. \<^verbatim>\<open>register\<close> with saved sessions returns and
  has created one VNC window and one RFB client per saved URL, in the order of
  \<^verbatim>\<open>Object.keys\<close>, and no dialog; each is created with the options saved for its URL
  provided the host does not both emit \<^verbatim>\<open>render\<close> at once and share \<^verbatim>\<open>args\<close> with the
  application. \<^verbatim>\<open>register\<close> without saved sessions returns and has created the dialog
  window and no RFB client.
\<close>

theorem session_persistence:
  assumes "reachable e st" and "distinct (map fst saved)"
  shows "(\<exists>m. proc_args_sessions (on_vnc_create_session st u w opts) = Some m \<and>
            (\<forall>k. map_of m k =
               map_option options (map_of (sessions (on_vnc_create_session st u w opts)) k))) \<and>
         (\<exists>m. proc_args_sessions (on_vnc_destroy_session st u w) = Some m \<and>
            (\<forall>k. map_of m k =
               map_option options (map_of (sessions (on_vnc_destroy_session st u w)) k))) \<and>
         (\<exists>st' ps. register e (Some saved) = Inr st' \<and>
            map fst ps = Object_keys saved \<and>
            (\<not> (render_sync e \<and> args_shared e) \<longrightarrow> ps = Object_entries saved) \<and>
            windows st' = restored_windows e 0 0 ps \<and>
            rfbs st' = restored_rfbs 0 ps) \<and>
         (\<exists>st'. register e None = Inr st' \<and>
            windows st' =
              [\<lparr>icon = logo e, title = mainTitle e, dimension = (400, 300),
                position = Some ''center'', sessionable = Some False, listeners = [],
                destroyed = False,
                dialog = Some \<lparr>state_url = ''ws://10.0.0.74:6080'', state_username = [],
                                state_password = ''abc123''\<rparr>\<rparr>] \<and>
            rfbs st' = [])"
proof -
  note ok = reachable_sessions_ok [OF assms(1)]
  from persisted_create_destroy(1) [OF ok, of u w opts] persisted_create_destroy(2) [OF ok, of u w]
    register_restores [OF assms(2), of e] register_dialog [of e]
  show ?thesis by (intro conjI)
qed

text \<open>
  The theorem at the example session and at two saved sessions, of which the second has an
  array index for its key and is therefore restored first.
\<close>

theorem session_persistence_witness:
  "reachable env0 example_session \<and>
   distinct (map fst [(''ws://b'', [(''x'', JNum 1)]), (''5900'', [])]) \<and>
   \<not> (render_sync env0 \<and> args_shared env0) \<and>
   Object_entries [(''ws://b'', [(''x'', JNum 1)]), (''5900'', [])] =
     [(''5900'', []), (''ws://b'', [(''x'', JNum 1)])] \<and>
   (\<exists>m. proc_args_sessions (on_vnc_create_session example_session ''ws://b'' 2 [(''x'', JNum 1)]) = Some m \<and>
      (\<forall>k. map_of m k =
         map_option options
           (map_of (sessions (on_vnc_create_session example_session ''ws://b'' 2 [(''x'', JNum 1)])) k))) \<and>
   (\<exists>m. proc_args_sessions (on_vnc_destroy_session example_session ''ws://b'' 2) = Some m \<and>
      (\<forall>k. map_of m k =
         map_option options (map_of (sessions (on_vnc_destroy_session example_session ''ws://b'' 2)) k))) \<and>
   (\<exists>st'. register env0 (Some [(''ws://b'', [(''x'', JNum 1)]), (''5900'', [])]) = Inr st' \<and>
      windows st' =
        [vnc_window env0 ''5900'' [] 0 0, vnc_window env0 ''ws://b'' [(''x'', JNum 1)] 1 1] \<and>
      rfbs st' = [vnc_rfb ''5900'' [] 0, vnc_rfb ''ws://b'' [(''x'', JNum 1)] 1]) \<and>
   (\<exists>st'. register env0 None = Inr st' \<and> length (windows st') = 1 \<and> rfbs st' = [])"
proof -
  let ?saved = "[(''ws://b'', [(''x'', JNum 1)]), (''5900'', [])]"
  have d: "distinct (map fst ?saved)" by simp
  have h: "\<not> (render_sync env0 \<and> args_shared env0)" by (simp add: env0_def)
  have o: "Object_entries ?saved = [(''5900'', []), (''ws://b'', [(''x'', JNum 1)])]"
    by code_simp
  note t = session_persistence [OF reachable_example_session d, of "''ws://b''" 2 "[(''x'', JNum 1)]"]
  from t have 1: "\<exists>m. proc_args_sessions (on_vnc_create_session example_session ''ws://b'' 2 [(''x'', JNum 1)]) = Some m \<and>
      (\<forall>k. map_of m k =
         map_option options
           (map_of (sessions (on_vnc_create_session example_session ''ws://b'' 2 [(''x'', JNum 1)])) k))"
    by (rule conjunct1)
  from t have 2: "\<exists>m. proc_args_sessions (on_vnc_destroy_session example_session ''ws://b'' 2) = Some m \<and>
      (\<forall>k. map_of m k =
         map_option options (map_of (sessions (on_vnc_destroy_session example_session ''ws://b'' 2)) k))"
    by (rule conjunct1 [OF conjunct2])
  from t obtain st' ps where r: "register env0 (Some ?saved) = Inr st'"
    and p: "\<not> (render_sync env0 \<and> args_shared env0) \<longrightarrow> ps = Object_entries ?saved"
    and w: "windows st' = restored_windows env0 0 0 ps" and f: "rfbs st' = restored_rfbs 0 ps"
    by blast
  from p h o have "ps = [(''5900'', []), (''ws://b'', [(''x'', JNum 1)])]" by simp
  with w f have "windows st' =
        [vnc_window env0 ''5900'' [] 0 0, vnc_window env0 ''ws://b'' [(''x'', JNum 1)] 1 1]"
    and "rfbs st' = [vnc_rfb ''5900'' [] 0, vnc_rfb ''ws://b'' [(''x'', JNum 1)] 1]"
    by simp_all
  with r have 3: "\<exists>st'. register env0 (Some ?saved) = Inr st' \<and>
      windows st' =
        [vnc_window env0 ''5900'' [] 0 0, vnc_window env0 ''ws://b'' [(''x'', JNum 1)] 1 1] \<and>
      rfbs st' = [vnc_rfb ''5900'' [] 0, vnc_rfb ''ws://b'' [(''x'', JNum 1)] 1]"
    by blast
  from t obtain st'' where "register env0 None = Inr st''" and "length (windows st'') = 1"
    and "rfbs st'' = []"
    by auto
  then have 4: "\<exists>st'. register env0 None = Inr st' \<and> length (windows st') = 1 \<and> rfbs st' = []"
    by blast
  from reachable_example_session d h o 1 2 3 4 show ?thesis by (intro conjI)
qed

text \<open>
  C6. Every call of \<^verbatim>\<open>createVncWindow\<close> returns and adds exactly one window, of dimension
  800x600, with the title \<^verbatim>\<open><title> - Connecting to u\<close>, and exactly one RFB client, attached
  to that window and given the URL \<open>u\<close>; the calls it makes are one \<^verbatim>\<open>createWindow\<close>, one
  \<^verbatim>\<open>new RFB\<close> and the first \<^verbatim>\<open>resize\<close>. The number of the new window is the number of windows
  before the call, and after any further events there are more windows than that: a later
  call gets a different window.
\<close>

theorem vnc_window_created:
  "\<exists>st'. createVncWindow e u arg st = Inr st' \<and>
     (\<exists>x. windows st' = windows st @ [x] \<and> dimension x = (800, 600) \<and>
          title x = mainTitle e @ '' - Connecting to '' @ u \<and> \<not> destroyed x) \<and>
     (\<exists>c. rfbs st' = rfbs st @ [c] \<and> rfb_target c = length (windows st) \<and> rfb_url c = u) \<and>
     calls st' = calls st @
       [Proc_createWindow (length (windows st)), New_RFB (length (rfbs st)),
        Rfb_windowResize (length (rfbs st))] \<and>
     (\<forall>st''. (step e)\<^sup>*\<^sup>* st' st'' \<longrightarrow> length (windows st) < length (windows st''))"
proof -
  obtain st' where s: "createVncWindow e u arg st = Inr st'"
    using createVncWindow_total by blast
  note r = createVncWindow_result [OF s]
  have "length (windows st) < length (windows st'')" if "(step e)\<^sup>*\<^sup>* st' st''" for st''
    using steps_windows_mono [OF that] r(1) by simp
  with s r show ?thesis
    by (simp add: vnc_window_def vnc_rfb_def)
qed

text \<open>The theorem at the example session, followed by one more event.\<close>

theorem vnc_window_created_witness:
  "\<exists>st'. createVncWindow env0 ''ws://a'' None example_session = Inr st' \<and>
     (\<exists>x. windows st' = windows example_session @ [x] \<and> dimension x = (800, 600) \<and>
          title x = ''VNC - Connecting to ws://a'' \<and> \<not> destroyed x) \<and>
     (\<exists>c. rfbs st' = rfbs example_session @ [c] \<and> rfb_target c = 2 \<and> rfb_url c = ''ws://a'') \<and>
     calls st' = calls example_session @ [Proc_createWindow 2, New_RFB 1, Rfb_windowResize 1] \<and>
     (step env0)\<^sup>*\<^sup>* st' (tray_onclick st' JNull) \<and>
     length (windows example_session) < length (windows (tray_onclick st' JNull))"
proof -
  have a: "length (windows example_session) = 2" and b: "length (rfbs example_session) = 1"
    by code_simp+
  from vnc_window_created [of env0 "''ws://a''" None example_session]
  obtain st' where s: "createVncWindow env0 ''ws://a'' None example_session = Inr st'"
    and x: "\<exists>x. windows st' = windows example_session @ [x] \<and> dimension x = (800, 600) \<and>
          title x = mainTitle env0 @ '' - Connecting to '' @ ''ws://a'' \<and> \<not> destroyed x"
    and c: "\<exists>c. rfbs st' = rfbs example_session @ [c] \<and> rfb_target c = length (windows example_session) \<and>
          rfb_url c = ''ws://a''"
    and l: "calls st' = calls example_session @
       [Proc_createWindow (length (windows example_session)), New_RFB (length (rfbs example_session)),
        Rfb_windowResize (length (rfbs example_session))]"
    and m: "\<forall>st''. (step env0)\<^sup>*\<^sup>* st' st'' \<longrightarrow> length (windows example_session) < length (windows st'')"
    by blast
  have t: "(step env0)\<^sup>*\<^sup>* st' (tray_onclick st' JNull)"
    by (rule r_into_rtranclp) (rule step_tray)
  with m have "length (windows example_session) < length (windows (tray_onclick st' JNull))"
    by blast
  with s x c l t a b show ?thesis
    by (auto simp: env0_def)
qed

text \<open>
  C7. In a reachable state, on a dialog that is not closed yet: Connect returns; it closes
  the dialog first and then creates a VNC window, with one RFB client, for the URL field of
  the form as it is at that time, with the options \<^verbatim>\<open>{credentials: {username, password}}\<close>
  of the two other fields (merged over \<^verbatim>\<open>{shared: true}\<close> for the client, and as they are
  for the session to be registered). Close returns, closes the dialog, and creates no
  window, no client and no session.
\<close>

theorem dialog_buttons:
  assumes "reachable e st" and "w < length (windows st)" and "dialog (windows st ! w) = Some d"
    and "\<not> destroyed (windows st ! w)"
  shows "(\<exists>st'. action_connect e w st = Inr st' \<and>
            calls st' = calls st @
              [Win_close w, Proc_createWindow (length (windows st)), New_RFB (length (rfbs st)),
               Rfb_windowResize (length (rfbs st))] \<and>
            destroyed (windows st' ! w) \<and>
            length (windows st') = Suc (length (windows st)) \<and>
            title (windows st' ! length (windows st)) =
              mainTitle e @ '' - Connecting to '' @ state_url d \<and>
            listeners_for ''render'' (listeners (windows st' ! length (windows st))) =
              [On_render (state_url d) (length (windows st))
                 [(''credentials'', JObj [(''username'', JStr (state_username d)),
                                          (''password'', JStr (state_password d))])]] \<and>
            length (rfbs st') = Suc (length (rfbs st)) \<and>
            rfb_url (rfbs st' ! length (rfbs st)) = state_url d \<and>
            rfb_options (rfbs st' ! length (rfbs st)) =
              [(''shared'', JBool True),
               (''credentials'', JObj [(''username'', JStr (state_username d)),
                                       (''password'', JStr (state_password d))])]) \<and>
         (\<exists>st'. action_close w st = Inr st' \<and>
            calls st' = calls st @ [Win_close w] \<and>
            destroyed (windows st' ! w) \<and>
            length (windows st') = length (windows st) \<and>
            rfbs st' = rfbs st \<and> sessions st' = sessions st \<and> pending st' = pending st)"
proof -
  from reachable_inv [OF assms(1)] assms(2,3) have bare: "listeners (windows st ! w) = []"
    by (simp add: app_inv_def dialogs_bare_def)
  let ?c = "st\<lparr>calls := calls st @ [Win_close w],
               windows := (windows st)[w := (windows st ! w)\<lparr>destroyed := True\<rparr>]\<rparr>"
  let ?o = "[(''credentials'', JObj [(''username'', JStr (state_username d)),
                                     (''password'', JStr (state_password d))])]"
  have close: "win_close w st = Inr ?c"
    using assms(2) bare assms(4) by (rule win_close_bare)
  obtain st' where s: "createVncWindow e (state_url d) (Some ?o) ?c = Inr st'"
    using createVncWindow_total by blast
  note r = createVncWindow_result [OF s]
  have conn: "action_connect e w st = Inr st'"
    using assms(3) close s by (simp add: action_connect_def action_close_def)
  have "calls st' = calls st @
              [Win_close w, Proc_createWindow (length (windows st)), New_RFB (length (rfbs st)),
               Rfb_windowResize (length (rfbs st))]"
    using r(3) by simp
  moreover have "destroyed (windows st' ! w)"
    using r(1) assms(2) by (simp add: nth_append)
  moreover have "length (windows st') = Suc (length (windows st))"
    using r(1) by simp
  moreover have "title (windows st' ! length (windows st)) =
              mainTitle e @ '' - Connecting to '' @ state_url d"
    and "listeners_for ''render'' (listeners (windows st' ! length (windows st))) =
              [On_render (state_url d) (length (windows st)) ?o]"
    using r(1) by (simp_all add: nth_append vnc_window_def)
  moreover have "length (rfbs st') = Suc (length (rfbs st))"
    and "rfb_url (rfbs st' ! length (rfbs st)) = state_url d"
    and "rfb_options (rfbs st' ! length (rfbs st)) = (''shared'', JBool True) # ?o"
    using r(2) by (simp_all add: nth_append vnc_rfb_def credentials_merged)
  moreover have "action_close w st = Inr ?c"
    using close by (simp add: action_close_def)
  moreover have "destroyed (windows ?c ! w)"
    using assms(2) by simp
  ultimately show ?thesis
    using conn by simp
qed

text \<open>The theorem at the dialog the application starts with.\<close>

theorem dialog_buttons_witness:
  "reachable env0 example_dialog \<and> 0 < length (windows example_dialog) \<and>
   dialog (windows example_dialog ! 0) =
     Some \<lparr>state_url = ''ws://10.0.0.74:6080'', state_username = [], state_password = ''abc123''\<rparr> \<and>
   \<not> destroyed (windows example_dialog ! 0) \<and>
   (\<exists>st'. action_connect env0 0 example_dialog = Inr st' \<and>
      calls st' = calls example_dialog @ [Win_close 0, Proc_createWindow 1, New_RFB 0, Rfb_windowResize 0] \<and>
      destroyed (windows st' ! 0) \<and>
      rfb_url (rfbs st' ! 0) = ''ws://10.0.0.74:6080'' \<and>
      rfb_options (rfbs st' ! 0) =
        [(''shared'', JBool True),
         (''credentials'', JObj [(''username'', JStr []), (''password'', JStr ''abc123'')])]) \<and>
   (\<exists>st'. action_close 0 example_dialog = Inr st' \<and>
      calls st' = calls example_dialog @ [Win_close 0] \<and>
      destroyed (windows st' ! 0) \<and>
      length (windows st') = length (windows example_dialog) \<and>
      rfbs st' = rfbs example_dialog)"
proof -
  have a: "0 < length (windows example_dialog)"
    and b: "dialog (windows example_dialog ! 0) =
     Some \<lparr>state_url = ''ws://10.0.0.74:6080'', state_username = [], state_password = ''abc123''\<rparr>"
    and c: "\<not> destroyed (windows example_dialog ! 0)"
    and l: "length (windows example_dialog) = 1" and m: "length (rfbs example_dialog) = 0"
    by code_simp+
  from dialog_buttons [OF reachable_example_dialog a b c] reachable_example_dialog a b c l m
  show ?thesis by auto
qed

text \<open>
  C8 (as amended). The handler of \<^verbatim>\<open>vnc:update-session\<close> assigns to
  \<^verbatim>\<open>sessions[url].capabilities\<close> without a membership check: for every URL that is neither
  tracked nor the name of a member the \<^verbatim>\<open>sessions\<close> object inherits, the lookup yields
  \<^verbatim>\<open>undefined\<close> and the handler throws a TypeError. Whenever the handler returns, the set of
  tracked URLs is what it was: it never creates an entry.
\<close>

theorem update_session_untracked:
  "(map_of (sessions st) u = None \<and> u \<notin> set (inherited_keys st) \<longrightarrow>
      sessions_get st u = Undefined \<and> on_vnc_update_session st u w caps = Inl TypeError) \<and>
   (\<forall>st'. on_vnc_update_session st u w caps = Inr st' \<longrightarrow>
      set (Object_keys (sessions st')) = set (Object_keys (sessions st)))"
proof -
  have "set (Object_keys (sessions st')) = set (Object_keys (sessions st))"
    if "on_vnc_update_session st u w caps = Inr st'" for st'
  proof (cases "map_of (sessions st) u")
    case None
    with that show ?thesis
      by (auto simp: on_vnc_update_session_def sessions_get_def split: if_splits)
  next
    case (Some s)
    then have "u \<in> fst ` set (sessions st)"
      by (metis map_of_eq_None_iff option.distinct(1))
    moreover from Some that
    have "st' = st\<lparr>sessions := AList.update u (s\<lparr>capabilities := caps\<rparr>) (sessions st)\<rparr>"
      by (auto simp: on_vnc_update_session_def sessions_get_def)
    ultimately show ?thesis
      by (auto simp: set_Object_keys dom_update)
  qed
  then show ?thesis
    by (simp add: on_vnc_update_session_def sessions_get_def)
qed

text \<open>
  The theorem at the example session: an update for an untracked URL throws, an update for
  the tracked one returns and tracks the same URLs.
\<close>

theorem update_session_untracked_witness:
  "map_of (sessions example_session) ''ws://b'' = None \<and>
   ''ws://b'' \<notin> set (inherited_keys example_session) \<and>
   sessions_get example_session ''ws://b'' = Undefined \<and>
   on_vnc_update_session example_session ''ws://b'' 1 [(''power'', JBool True)] = Inl TypeError \<and>
   on_vnc_update_session example_session ''ws://10.0.0.74:6080'' 1 [(''power'', JBool True)] =
     Inr (example_session\<lparr>sessions :=
            [(''ws://10.0.0.74:6080'',
              \<lparr>win = 1,
               options = [(''credentials'', JObj [(''username'', JStr []), (''password'', JStr ''abc123'')])],
               capabilities = [(''power'', JBool True)]\<rparr>)]\<rparr>) \<and>
   set (Object_keys (sessions (example_session\<lparr>sessions :=
            [(''ws://10.0.0.74:6080'',
              \<lparr>win = 1,
               options = [(''credentials'', JObj [(''username'', JStr []), (''password'', JStr ''abc123'')])],
               capabilities = [(''power'', JBool True)]\<rparr>)]\<rparr>))) =
     set (Object_keys (sessions example_session))"
proof -
  have a: "map_of (sessions example_session) ''ws://b'' = None"
    and b: "''ws://b'' \<notin> set (inherited_keys example_session)"
    and c: "on_vnc_update_session example_session ''ws://10.0.0.74:6080'' 1 [(''power'', JBool True)] =
     Inr (example_session\<lparr>sessions :=
            [(''ws://10.0.0.74:6080'',
              \<lparr>win = 1,
               options = [(''credentials'', JObj [(''username'', JStr []), (''password'', JStr ''abc123'')])],
               capabilities = [(''power'', JBool True)]\<rparr>)]\<rparr>)"
    by code_simp+
  from update_session_untracked [of example_session "''ws://b''" 1 "[(''power'', JBool True)]"] a b
    update_session_untracked [of example_session "''ws://10.0.0.74:6080''" 1 "[(''power'', JBool True)]"] c
  show ?thesis by simp
qed

text \<open>
  C8 as stated fails for a URL that names an inherited member: \<^verbatim>\<open>toString\<close> is not tracked
  in the example session, the lookup yields the inherited function, and the handler returns
  with the state as it was.
\<close>

theorem update_session_inherited_counterexample:
  "map_of (sessions example_session) ''toString'' = None \<and>
   sessions_get example_session ''toString'' = Inherited \<and>
   on_vnc_update_session example_session ''toString'' 1 [(''power'', JBool True)] = Inr example_session"
  by code_simp



text \<open>
  C10 (as amended). The RFB client that \<^verbatim>\<open>createVncWindow\<close> constructs receives the
  caller's options merged over \<^verbatim>\<open>{shared: true}\<close>: without a \<^verbatim>\<open>shared\<close> key in the caller's
  object (or without an object) \<^verbatim>\<open>shared\<close> is \<^verbatim>\<open>true\<close>, with one it is the caller's value,
  and every other field of the caller's object except one named \<^verbatim>\<open>__proto__\<close> is passed
  through unchanged.
\<close>

theorem rfb_options_default_shared:
  assumes "opts = (case arg of None \<Rightarrow> [] | Some obj \<Rightarrow> obj)" and "distinct (map fst opts)"
    and "createVncWindow e u arg st = Inr st'"
  shows "(map_of opts ''shared'' = None \<longrightarrow>
            map_of (rfb_options (rfbs st' ! length (rfbs st))) ''shared'' = Some (JBool True)) \<and>
         (\<forall>v. map_of opts ''shared'' = Some v \<longrightarrow>
            map_of (rfb_options (rfbs st' ! length (rfbs st))) ''shared'' = Some v) \<and>
         (\<forall>k. k \<noteq> ''shared'' \<and> k \<noteq> ''__proto__'' \<longrightarrow>
            map_of (rfb_options (rfbs st' ! length (rfbs st))) k = map_of opts k)"
proof -
  from createVncWindow_result(2) [OF assms(3)] assms(1)
  have "rfb_options (rfbs st' ! length (rfbs st)) = Object_assign [(''shared'', JBool True)] opts"
    by (simp add: vnc_rfb_def)
  moreover have "map_of (Object_assign [(''shared'', JBool True)] opts) k =
      (case map_of opts k of Some v \<Rightarrow> Some v | None \<Rightarrow> map_of [(''shared'', JBool True)] k)"
    if "k \<noteq> ''__proto__''" for k
    using that assms(2) by (rule map_of_Object_assign)
  ultimately show ?thesis
    by (auto split: option.splits)
qed

text \<open>The theorem at two option objects, with and without a \<^verbatim>\<open>shared\<close> key.\<close>

theorem rfb_options_default_shared_witness:
  "distinct (map fst [(''credentials'', JObj [(''username'', JStr ''u'')]), (''shared'', JBool False)]) \<and>
   createVncWindow env0 ''ws://a'' (Some [(''credentials'', JObj [(''username'', JStr ''u'')]), (''shared'', JBool False)])
     example_dialog =
     Inr ((opened env0 ''ws://a'' [(''credentials'', JObj [(''username'', JStr ''u'')]), (''shared'', JBool False)]
            example_dialog)\<lparr>pending := [Emit_render 0, Emit_render 1]\<rparr>) \<and>
   map_of (rfb_options (rfbs ((opened env0 ''ws://a'' [(''credentials'', JObj [(''username'', JStr ''u'')]), (''shared'', JBool False)]
            example_dialog)\<lparr>pending := [Emit_render 0, Emit_render 1]\<rparr>) ! length (rfbs example_dialog))) ''shared'' =
     Some (JBool False) \<and>
   map_of (rfb_options (rfbs ((opened env0 ''ws://a'' [(''credentials'', JObj [(''username'', JStr ''u'')]), (''shared'', JBool False)]
            example_dialog)\<lparr>pending := [Emit_render 0, Emit_render 1]\<rparr>) ! length (rfbs example_dialog))) ''credentials'' =
     Some (JObj [(''username'', JStr ''u'')]) \<and>
   distinct (map fst [(''credentials'', JObj [(''username'', JStr ''u'')])]) \<and>
   createVncWindow env0 ''ws://a'' (Some [(''credentials'', JObj [(''username'', JStr ''u'')])]) example_dialog =
     Inr ((opened env0 ''ws://a'' [(''credentials'', JObj [(''username'', JStr ''u'')])]
            example_dialog)\<lparr>pending := [Emit_render 0, Emit_render 1]\<rparr>) \<and>
   map_of (rfb_options (rfbs ((opened env0 ''ws://a'' [(''credentials'', JObj [(''username'', JStr ''u'')])]
            example_dialog)\<lparr>pending := [Emit_render 0, Emit_render 1]\<rparr>) ! length (rfbs example_dialog))) ''shared'' =
     Some (JBool True)"
proof -
  let ?o1 = "[(''credentials'', JObj [(''username'', JStr ''u'')]), (''shared'', JBool False)]"
  let ?o2 = "[(''credentials'', JObj [(''username'', JStr ''u'')])]"
  have d1: "distinct (map fst ?o1)" and d2: "distinct (map fst ?o2)" by simp_all
  have c1: "createVncWindow env0 ''ws://a'' (Some ?o1) example_dialog =
     Inr ((opened env0 ''ws://a'' ?o1 example_dialog)\<lparr>pending := [Emit_render 0, Emit_render 1]\<rparr>)"
    and c2: "createVncWindow env0 ''ws://a'' (Some ?o2) example_dialog =
     Inr ((opened env0 ''ws://a'' ?o2 example_dialog)\<lparr>pending := [Emit_render 0, Emit_render 1]\<rparr>)"
    by code_simp+
  from rfb_options_default_shared [OF _ d1 c1] rfb_options_default_shared [OF _ d2 c2] d1 d2 c1 c2
  show ?thesis by simp
qed

text \<open>
  C10 as stated fails for an own field named \<^verbatim>\<open>__proto__\<close> (as \<^verbatim>\<open>JSON.parse\<close> creates it):
  \<^verbatim>\<open>Object.assign\<close> hands it to the inherited setter, which ignores the number, and the
  client's options have no such field.
\<close>

theorem rfb_options_proto_counterexample:
  "createVncWindow env0 ''ws://a'' (Some [(''__proto__'', JNum 5)]) example_dialog =
     Inr ((opened env0 ''ws://a'' [(''__proto__'', JNum 5)] example_dialog)
            \<lparr>pending := [Emit_render 0, Emit_render 1]\<rparr>) \<and>
   rfb_options (rfbs (opened env0 ''ws://a'' [(''__proto__'', JNum 5)] example_dialog) ! 0) =
     [(''shared'', JBool True)] \<and>
   rfb_options_proto (rfbs (opened env0 ''ws://a'' [(''__proto__'', JNum 5)] example_dialog) ! 0) = None \<and>
   map_of [(''__proto__'', JNum 5)] ''__proto__'' = Some (JNum 5) \<and>
   map_of (rfb_options (rfbs (opened env0 ''ws://a'' [(''__proto__'', JNum 5)] example_dialog) ! 0))
     ''__proto__'' = None"
  by code_simp

end
